theory Spec2Isabelle
  imports Complex_Main "HOL-Library.Word" "HOL-Library.Sublist"
begin

section \<open>Values of the language\<close>

text \<open>
  A JavaScript string is a sequence of 16-bit code units. Literals of the source are
  written through \<open>js_str\<close>, which maps each ASCII character to its code unit.
\<close>

type_synonym js_string = "16 word list"

definition js_str :: "string \<Rightarrow> js_string" where
  "js_str s = map of_char s"

text \<open>
  A Number is NaN, an infinity or a finite value. The finite doubles are rationals; the
  program never computes with a Number (it stores, compares and serialises them), so
  the finite values are modelled by \<open>rat\<close>, a superset of the doubles, in which the two
  zeros coincide (as they do under \<open>===\<close>, \<open>Boolean\<close> and \<open>JSON.stringify\<close>).
\<close>

datatype js_number = NaN | PosInfinity | NegInfinity | Finite rat

text \<open>Strict equality \<open>a === b\<close> on two Numbers: NaN equals nothing, itself included.\<close>

definition strict_equals :: "js_number \<Rightarrow> js_number \<Rightarrow> bool" where
  "strict_equals a b = (a \<noteq> NaN \<and> a = b)"

text \<open>
  The values \<open>JSON.parse\<close> returns, with \<open>Undefined\<close> for what reading a missing
  property gives. An object carries its own properties as an association list read by
  \<open>map_of\<close>.
\<close>

datatype js_value =
    Undefined
  | JNull
  | JBool bool
  | JNum js_number
  | JStr js_string
  | JArr "js_value list"
  | JObj "(js_string \<times> js_value) list"

text \<open>
  The exceptions met: the two of the language, and the one \<open>localStorage.setItem\<close>
  throws when the value does not fit.
\<close>

datatype js_error = SyntaxError | TypeError | QuotaExceededError

text \<open>
  Two conversions of the language depend on the binary representation of Numbers and
  are taken from the platform as they are: reading a string as a Number and printing
  a Number.
\<close>

record platform =
  StringToNumber :: "js_string \<Rightarrow> js_number"
  NumberToString :: "js_number \<Rightarrow> js_string"

section \<open>State\<close>

text \<open>Each todo is an object \<open>{ id, text, completed }\<close>.\<close>

record todo =
  todo_id :: js_number
  todo_text :: js_string
  todo_completed :: bool

text \<open>
  What \<open>localStorage\<close> holds under \<open>STORAGE_KEY\<close> is a string. The program only hands
  it to \<open>JSON.parse\<close> after testing it for emptiness, so a stored string is
  represented by what these two see: the empty string, a non-empty string outside the
  JSON grammar, or a JSON text, given by the value \<open>JSON.parse\<close> returns for it.
\<close>

datatype stored_string = Empty_string | Not_JSON | JSON_text js_value

text \<open>
  The module-level variables \<open>todos\<close> and \<open>currentFilter\<close>, the entry of
  \<open>localStorage\<close> under \<open>STORAGE_KEY\<close> (\<open>None\<close> when absent) with the log of the
  values \<open>setItem\<close> has written (latest last) and the number of code units the browser
  lets the entry hold, the text of the message element, the value of the input field,
  and the log of \<open>console.error\<close>. The list element, the counter element and the marks
  on the filter buttons are rebuilt from \<open>todos\<close> and \<open>currentFilter\<close> (by
  \<open>renderTodos\<close>, \<open>updateTodoCounter\<close> and \<open>setFilter\<close>); they are read through
  \<open>getFilteredTodos\<close> and \<open>updateTodoCounter\<close> below and not stored.
\<close>

record state =
  todos :: "todo list"
  currentFilter :: js_string
  localStorage :: "stored_string option"
  setItem_log :: "stored_string list"
  storage_quota :: nat
  todoMessage :: js_string
  todoInput :: js_string
  console_errors :: "js_error list"

section \<open>JSON texts\<close>

text \<open>
  The code units that occur below: \<open>0x22\<close> is the double quote, \<open>0x5C\<close> the backslash,
  \<open>0x2F\<close> the slash, \<open>0x2C\<close> the comma, \<open>0x3A\<close> the colon, \<open>0x5B\<close> and \<open>0x5D\<close> the
  brackets, \<open>0x7B\<close> and \<open>0x7D\<close> the braces, \<open>0x2B\<close>, \<open>0x2D\<close> and \<open>0x2E\<close> plus, minus
  and point, \<open>0x30\<close> to \<open>0x39\<close> the digits, \<open>0x45\<close> and \<open>0x65\<close> the letter e, and
  \<open>0x62\<close>, \<open>0x66\<close>, \<open>0x6E\<close>, \<open>0x72\<close>, \<open>0x74\<close>, \<open>0x75\<close> the letters b, f, n, r, t, u.
\<close>

subsection \<open>Writing\<close>

text \<open>
  \<open>QuoteJSONString\<close>: the quote, the backslash and the control characters are escaped,
  and so is a surrogate that is not half of a pair, by \<open>\u\<close> and four lower-case
  hexadecimal digits.
\<close>

definition hex_digit :: "nat \<Rightarrow> 16 word" where
  "hex_digit d = (if d < 10 then 0x30 + of_nat d else 0x57 + of_nat d)"

definition UnicodeEscape :: "16 word \<Rightarrow> js_string" where
  "UnicodeEscape c =
     [0x5C, 0x75, hex_digit (unat c div 4096), hex_digit (unat c div 256 mod 16),
      hex_digit (unat c div 16 mod 16), hex_digit (unat c mod 16)]"

definition is_leading_surrogate :: "16 word \<Rightarrow> bool" where
  "is_leading_surrogate c = (0xD800 \<le> c \<and> c \<le> 0xDBFF)"

definition is_trailing_surrogate :: "16 word \<Rightarrow> bool" where
  "is_trailing_surrogate c = (0xDC00 \<le> c \<and> c \<le> 0xDFFF)"

definition quote_code_point :: "16 word \<Rightarrow> js_string" where
  "quote_code_point c =
     (if c = 0x08 then [0x5C, 0x62]
      else if c = 0x09 then [0x5C, 0x74]
      else if c = 0x0A then [0x5C, 0x6E]
      else if c = 0x0C then [0x5C, 0x66]
      else if c = 0x0D then [0x5C, 0x72]
      else if c = 0x22 then [0x5C, 0x22]
      else if c = 0x5C then [0x5C, 0x5C]
      else if c < 0x20 \<or> is_leading_surrogate c \<or> is_trailing_surrogate c
        then UnicodeEscape c
      else [c])"

fun quote_chars :: "js_string \<Rightarrow> js_string" where
  "quote_chars [] = []"
| "quote_chars [c] = quote_code_point c"
| "quote_chars (c # d # cs) =
     (if is_leading_surrogate c \<and> is_trailing_surrogate d
      then c # d # quote_chars cs
      else quote_code_point c @ quote_chars (d # cs))"

definition QuoteJSONString :: "js_string \<Rightarrow> js_string" where
  "QuoteJSONString s = 0x22 # quote_chars s @ [0x22]"

text \<open>
  Printing a Number. On the integers of magnitude at most \<open>2^53 - 1\<close> (those for which
  \<open>Number.isSafeInteger\<close> holds, the readings of \<open>Date.now()\<close> among them) the
  print is the decimal numeral; elsewhere it is the platform's.
\<close>

fun decimal :: "nat \<Rightarrow> js_string" where
  "decimal n =
     (if n < 10 then [0x30 + of_nat n]
      else decimal (n div 10) @ [0x30 + of_nat (n mod 10)])"

declare decimal.simps [simp del]

fun isSafeInteger :: "js_number \<Rightarrow> bool" where
  "isSafeInteger (Finite q) = (of_int \<lfloor>q\<rfloor> = q \<and> \<bar>q\<bar> \<le> 9007199254740991)"
| "isSafeInteger n = False"

definition Number_toString :: "platform \<Rightarrow> js_number \<Rightarrow> js_string" where
  "Number_toString P n =
     (case n of
        NaN \<Rightarrow> js_str ''NaN''
      | PosInfinity \<Rightarrow> js_str ''Infinity''
      | NegInfinity \<Rightarrow> js_str ''-Infinity''
      | Finite q \<Rightarrow>
          if isSafeInteger n then
            (if q < 0 then 0x2D # decimal (nat \<lfloor>- q\<rfloor>) else decimal (nat \<lfloor>q\<rfloor>))
          else NumberToString P n)"

text \<open>
  \<open>JSON.stringify(todos)\<close>: an array of objects with the three properties in creation
  order and no white space; a Number that is not finite is written as \<open>null\<close>.
\<close>

definition JSON_number :: "platform \<Rightarrow> js_number \<Rightarrow> js_string" where
  "JSON_number P n = (case n of Finite q \<Rightarrow> Number_toString P n | _ \<Rightarrow> js_str ''null'')"

definition JSON_boolean :: "bool \<Rightarrow> js_string" where
  "JSON_boolean b = (if b then js_str ''true'' else js_str ''false'')"

definition JSON_todo :: "platform \<Rightarrow> todo \<Rightarrow> js_string" where
  "JSON_todo P t =
     0x7B # QuoteJSONString (js_str ''id'') @ 0x3A # JSON_number P (todo_id t)
     @ 0x2C # QuoteJSONString (js_str ''text'') @ 0x3A # QuoteJSONString (todo_text t)
     @ 0x2C # QuoteJSONString (js_str ''completed'') @ 0x3A # JSON_boolean (todo_completed t)
     @ [0x7D]"

fun join_commas :: "js_string list \<Rightarrow> js_string" where
  "join_commas [] = []"
| "join_commas [x] = x"
| "join_commas (x # y # ys) = x @ 0x2C # join_commas (y # ys)"

definition JSON_stringify :: "platform \<Rightarrow> todo list \<Rightarrow> js_string" where
  "JSON_stringify P ts = 0x5B # join_commas (map (JSON_todo P) ts) @ [0x5D]"

subsection \<open>Reading\<close>

text \<open>
  The characters of a string literal after its opening quote, up to the closing quote:
  the text read and the rest of the input, or \<open>None\<close> for a syntax error: a control
  character, an unknown escape, a missing closing quote.
\<close>

definition hex_value :: "16 word \<Rightarrow> nat option" where
  "hex_value c =
     (if 0x30 \<le> c \<and> c \<le> 0x39 then Some (unat c - 48)
      else if 0x61 \<le> c \<and> c \<le> 0x66 then Some (unat c - 87)
      else if 0x41 \<le> c \<and> c \<le> 0x46 then Some (unat c - 55)
      else None)"

definition unescape :: "16 word \<Rightarrow> 16 word option" where
  "unescape e =
     (if e = 0x22 \<or> e = 0x2F \<or> e = 0x5C then Some e
      else if e = 0x62 then Some 0x08
      else if e = 0x66 then Some 0x0C
      else if e = 0x6E then Some 0x0A
      else if e = 0x72 then Some 0x0D
      else if e = 0x74 then Some 0x09
      else None)"

definition add_char ::
  "16 word \<Rightarrow> (js_string \<times> js_string) option \<Rightarrow> (js_string \<times> js_string) option" where
  "add_char c r = (case r of None \<Rightarrow> None | Some (s, rest) \<Rightarrow> Some (c # s, rest))"

fun parse_chars :: "js_string \<Rightarrow> (js_string \<times> js_string) option" where
  "parse_chars [] = None"
| "parse_chars (c # cs) =
     (if c = 0x22 then Some ([], cs)
      else if c = 0x5C then
        (case cs of
           [] \<Rightarrow> None
         | e # cs1 \<Rightarrow>
             if e = 0x75 then
               (case cs1 of
                  h1 # h2 # h3 # h4 # cs2 \<Rightarrow>
                    (case (hex_value h1, hex_value h2, hex_value h3, hex_value h4) of
                       (Some x1, Some x2, Some x3, Some x4) \<Rightarrow>
                         add_char (of_nat (((x1 * 16 + x2) * 16 + x3) * 16 + x4))
                           (parse_chars cs2)
                     | _ \<Rightarrow> None)
                | _ \<Rightarrow> None)
             else
               (case unescape e of
                  None \<Rightarrow> None
                | Some u \<Rightarrow> add_char u (parse_chars cs1)))
      else if c < 0x20 then None
      else add_char c (parse_chars cs))"

text \<open>
  A number literal is the longest run of digits, signs, points and letters e, which
  must have the form of the grammar: an optional minus, an integer part without a
  leading zero, an optional fraction, an optional exponent. Its value is exact for an
  integer literal of magnitude at most \<open>2^53 - 1\<close> and the platform's elsewhere.
\<close>

definition isDigit :: "16 word \<Rightarrow> bool" where
  "isDigit c = (0x30 \<le> c \<and> c \<le> 0x39)"

definition numberish :: "16 word \<Rightarrow> bool" where
  "numberish c = (isDigit c \<or> c = 0x2B \<or> c = 0x2D \<or> c = 0x2E \<or> c = 0x45 \<or> c = 0x65)"

definition unsigned_part :: "js_string \<Rightarrow> js_string" where
  "unsigned_part s = (case s of [] \<Rightarrow> [] | c # r \<Rightarrow> if c = 0x2D then r else s)"

definition json_int :: "js_string \<Rightarrow> bool" where
  "json_int i = (case i of [] \<Rightarrow> False | [d] \<Rightarrow> True | d # ds \<Rightarrow> d \<noteq> 0x30)"

definition json_frac :: "js_string \<Rightarrow> bool" where
  "json_frac f =
     (case f of [] \<Rightarrow> True | d # ds \<Rightarrow> d = 0x2E \<and> ds \<noteq> [] \<and> list_all isDigit ds)"

definition json_exp :: "js_string \<Rightarrow> bool" where
  "json_exp x =
     (case x of
        [] \<Rightarrow> True
      | e # r \<Rightarrow>
          (case r of
             [] \<Rightarrow> False
           | s # ds \<Rightarrow>
               if s = 0x2B \<or> s = 0x2D then ds \<noteq> [] \<and> list_all isDigit ds
               else list_all isDigit r))"

definition json_number :: "js_string \<Rightarrow> bool" where
  "json_number s =
     (let u = unsigned_part s;
          i = takeWhile isDigit u;
          r = dropWhile isDigit u;
          f = takeWhile (\<lambda>c. c \<noteq> 0x45 \<and> c \<noteq> 0x65) r;
          x = dropWhile (\<lambda>c. c \<noteq> 0x45 \<and> c \<noteq> 0x65) r
      in json_int i \<and> json_frac f \<and> json_exp x)"

definition digits_value :: "js_string \<Rightarrow> nat" where
  "digits_value ds = foldl (\<lambda>a c. 10 * a + (unat c - 48)) 0 ds"

definition read_number :: "platform \<Rightarrow> js_string \<Rightarrow> js_number" where
  "read_number P s =
     (let u = unsigned_part s in
      if u \<noteq> [] \<and> list_all isDigit u \<and> digits_value u \<le> 9007199254740991 then
        (if u = s then Finite (of_nat (digits_value u)) else Finite (- of_nat (digits_value u)))
      else StringToNumber P s)"

text \<open>White space is the space, the tab, the line feed and the carriage return.\<close>

definition JSON_ws :: "16 word \<Rightarrow> bool" where
  "JSON_ws c = (c = 0x20 \<or> c = 0x09 \<or> c = 0x0A \<or> c = 0x0D)"

definition skip_ws :: "js_string \<Rightarrow> js_string" where
  "skip_ws cs = dropWhile JSON_ws cs"

text \<open>Defining a property: a key already present keeps its place and takes the new value.\<close>

fun set_property ::
  "js_string \<Rightarrow> js_value \<Rightarrow> (js_string \<times> js_value) list \<Rightarrow> (js_string \<times> js_value) list" where
  "set_property k v [] = [(k, v)]"
| "set_property k v ((k', v') # ps) =
     (if k' = k then (k, v) # ps else (k', v') # set_property k v ps)"

text \<open>
  A value, the elements of an array after its opening bracket, and the members of an
  object after its opening brace, each from input that starts at the first character
  of the item; the result is what was read and the rest of the input, or \<open>None\<close> for
  a syntax error. The comparisons of lengths hold for every input, since an item read
  is never empty; they are what lets the recursion be accepted.
\<close>

function parse_value :: "platform \<Rightarrow> js_string \<Rightarrow> (js_value \<times> js_string) option"
  and parse_elements :: "platform \<Rightarrow> js_string \<Rightarrow> (js_value list \<times> js_string) option"
  and parse_members ::
    "platform \<Rightarrow> (js_string \<times> js_value) list \<Rightarrow> js_string
       \<Rightarrow> ((js_string \<times> js_value) list \<times> js_string) option" where
  "parse_value P [] = None"
| "parse_value P (c # cs) =
     (if c = 0x22 then
        (case parse_chars cs of None \<Rightarrow> None | Some (s, rest) \<Rightarrow> Some (JStr s, rest))
      else if c = 0x5B then
        (case skip_ws cs of
           [] \<Rightarrow> None
         | d # r \<Rightarrow>
             if d = 0x5D then Some (JArr [], r)
             else (case parse_elements P (d # r) of
                     None \<Rightarrow> None
                   | Some (vs, rest) \<Rightarrow> Some (JArr vs, rest)))
      else if c = 0x7B then
        (case skip_ws cs of
           [] \<Rightarrow> None
         | d # r \<Rightarrow>
             if d = 0x7D then Some (JObj [], r)
             else (case parse_members P [] (d # r) of
                     None \<Rightarrow> None
                   | Some (ps, rest) \<Rightarrow> Some (JObj ps, rest)))
      else if take 4 (c # cs) = js_str ''true'' then Some (JBool True, drop 4 (c # cs))
      else if take 5 (c # cs) = js_str ''false'' then Some (JBool False, drop 5 (c # cs))
      else if take 4 (c # cs) = js_str ''null'' then Some (JNull, drop 4 (c # cs))
      else if c = 0x2D \<or> isDigit c then
        (if json_number (takeWhile numberish (c # cs))
         then Some (JNum (read_number P (takeWhile numberish (c # cs))),
                   dropWhile numberish (c # cs))
         else None)
      else None)"
| "parse_elements P [] = None"
| "parse_elements P (c # cs) =
     (case parse_value P (c # cs) of
        None \<Rightarrow> None
      | Some (v, rest) \<Rightarrow>
          if length rest < length (c # cs) then
            (case skip_ws rest of
               [] \<Rightarrow> None
             | d # r \<Rightarrow>
                 if d = 0x2C then
                   (case parse_elements P (skip_ws r) of
                      None \<Rightarrow> None
                    | Some (vs, rest') \<Rightarrow> Some (v # vs, rest'))
                 else if d = 0x5D then Some ([v], r)
                 else None)
          else None)"
| "parse_members P ps [] = None"
| "parse_members P ps (c # cs) =
     (if c = 0x22 then
        (case parse_chars cs of
           None \<Rightarrow> None
         | Some (k, rest) \<Rightarrow>
             (case skip_ws rest of
                [] \<Rightarrow> None
              | d # r \<Rightarrow>
                  if d = 0x3A then
                    (case parse_value P (skip_ws r) of
                       None \<Rightarrow> None
                     | Some (v, rest') \<Rightarrow>
                         if length rest' < length (c # cs) then
                           (case skip_ws rest' of
                              [] \<Rightarrow> None
                            | d' # r' \<Rightarrow>
                                if d' = 0x2C then
                                  parse_members P (set_property k v ps) (skip_ws r')
                                else if d' = 0x7D then Some (set_property k v ps, r')
                                else None)
                         else None)
                  else None))
      else None)"
  by pat_completeness auto

termination
proof -
  have added: "\<exists>s'. r = Some (s', rest)" if "add_char c r = Some (s, rest)" for c r s rest
    using that by (auto simp: add_char_def split: option.splits)
  have shorter: "length rest < length cs" if "parse_chars cs = Some (s, rest)" for cs s rest
    using that
  proof (induction cs arbitrary: s rule: length_induct)
    case (1 cs)
    then have IH: "\<And>cs' s'. length cs' < length cs \<Longrightarrow> parse_chars cs' = Some (s', rest)
                     \<Longrightarrow> length rest < length cs'"
      by blast
    from "1.prems" obtain c cs1 where cs: "cs = c # cs1"
      by (cases cs) simp_all
    show ?case
    proof (cases "c = 0x22")
      case True
      with "1.prems" cs show ?thesis by simp
    next
      case quote: False
      show ?thesis
      proof (cases "c = 0x5C")
        case False
        with quote "1.prems" cs have "add_char c (parse_chars cs1) = Some (s, rest)"
          by (simp split: if_splits)
        from added [OF this] obtain s' where "parse_chars cs1 = Some (s', rest)" ..
        from IH [OF _ this] cs show ?thesis by simp
      next
        case True
        with "1.prems" cs obtain e cs2 where cs1: "cs1 = e # cs2"
          by (cases cs1) simp_all
        show ?thesis
        proof (cases "e = 0x75")
          case False
          with True "1.prems" cs cs1
          obtain u where "add_char u (parse_chars cs2) = Some (s, rest)"
            by (simp split: option.splits)
          from added [OF this] obtain s' where "parse_chars cs2 = Some (s', rest)" ..
          from IH [OF _ this] cs cs1 show ?thesis by simp
        next
          case u: True
          with True "1.prems" cs cs1
          obtain h1 h2 h3 h4 cs3 where cs2: "cs2 = h1 # h2 # h3 # h4 # cs3"
            by (simp split: list.splits)
          with u True "1.prems" cs cs1
          obtain w where "add_char w (parse_chars cs3) = Some (s, rest)"
            by (simp split: option.splits)
          from added [OF this] obtain s' where "parse_chars cs3 = Some (s', rest)" ..
          from IH [OF _ this] cs cs1 cs2 show ?thesis by simp
        qed
      qed
    qed
  qed
  have ws: "length (skip_ws cs) \<le> length cs" for cs
    by (simp add: skip_ws_def length_dropWhile_le)
  show ?thesis
  proof (relation "measure (\<lambda>x. case x of
              Inl (P, cs) \<Rightarrow> 2 * length cs
            | Inr (Inl (P, cs)) \<Rightarrow> 2 * length cs + 1
            | Inr (Inr (P, ps, cs)) \<Rightarrow> 2 * length cs + 1)", goal_cases)
    case 1
    show ?case by simp
  next
    case (2 P c cs d r)
    then show ?case
      using ws [of cs] by simp
  next
    case (3 P c cs d r)
    then show ?case
      using ws [of cs] by simp
  next
    case (4 P c cs)
    show ?case by simp
  next
    case (5 P c cs x v rest d r)
    then show ?case
      using ws [of r] ws [of rest] by simp
  next
    case (6 P ps c cs x k rest d r)
    then show ?case
      using ws [of r] ws [of rest] shorter [of cs k rest] by simp
  next
    case (7 P ps c cs x k rest d r y v rest' d' r')
    then show ?case
      using ws [of r'] ws [of rest'] by simp
  qed
qed

text \<open>\<open>JSON.parse(text)\<close>: one value, with white space allowed around it.\<close>

definition JSON_parse_text :: "platform \<Rightarrow> js_string \<Rightarrow> js_error + js_value" where
  "JSON_parse_text P s =
     (case parse_value P (skip_ws s) of
        None \<Rightarrow> Inl SyntaxError
      | Some (v, rest) \<Rightarrow> if skip_ws rest = [] then Inr v else Inl SyntaxError)"

text \<open>A string as the storage entry represents it.\<close>

definition stored :: "platform \<Rightarrow> js_string \<Rightarrow> stored_string" where
  "stored P text =
     (if text = [] then Empty_string
      else case JSON_parse_text P text of Inl e \<Rightarrow> Not_JSON | Inr v \<Rightarrow> JSON_text v)"

section \<open>Utility functions\<close>

text \<open>
  \<open>saveTodosToStorage\<close>: \<open>setItem\<close> throws when the text is longer than the entry may
  be, and stores nothing then; the exception is not caught here.
\<close>

definition saveTodosToStorage :: "platform \<Rightarrow> state \<Rightarrow> js_error + state" where
  "saveTodosToStorage P st =
     (let text = JSON_stringify P (todos st) in
      if length text \<le> storage_quota st then
        Inr (st\<lparr>localStorage := Some (stored P text),
                setItem_log := setItem_log st @ [stored P text]\<rparr>)
      else Inl QuotaExceededError)"

text \<open>The three constants \<open>total\<close>, \<open>pending\<close>, \<open>completed\<close> of \<open>updateTodoCounter\<close>.\<close>

definition updateTodoCounter :: "state \<Rightarrow> nat \<times> nat \<times> nat" where
  "updateTodoCounter st =
     (let total = length (todos st);
          pending = length (filter (\<lambda>todo. \<not> todo_completed todo) (todos st));
          completed = length (filter (\<lambda>todo. todo_completed todo) (todos st))
      in (total, pending, completed))"

definition setTodoMessage :: "js_string \<Rightarrow> state \<Rightarrow> state" where
  "setTodoMessage message st = st\<lparr>todoMessage := message\<rparr>"

definition resetInput :: "state \<Rightarrow> state" where
  "resetInput st = st\<lparr>todoInput := []\<rparr>"

text \<open>
  \<open>String.prototype.trim\<close> removes white space and line terminators from both ends:
  TAB, LF, VT, FF, CR, SP, NBSP, U+1680, U+2000 to U+200A, U+2028, U+2029, U+202F,
  U+205F, U+3000 and U+FEFF.
\<close>

definition isWhiteSpace :: "16 word \<Rightarrow> bool" where
  "isWhiteSpace c =
     (c \<in> {0x9, 0xA, 0xB, 0xC, 0xD, 0x20, 0xA0, 0x1680, 0x2028, 0x2029, 0x202F,
           0x205F, 0x3000, 0xFEFF}
      \<or> (0x2000 \<le> c \<and> c \<le> 0x200A))"

definition trim :: "js_string \<Rightarrow> js_string" where
  "trim s = rev (dropWhile isWhiteSpace (rev (dropWhile isWhiteSpace s)))"

section \<open>Core operations\<close>

text \<open>
  The three operations that change \<open>todos\<close> assign it before they save, and none
  catches what the save throws: the result is the state on return, or the exception with
  the state in which it leaves the page.
\<close>

definition state_after :: "js_error \<times> state + state \<Rightarrow> state" where
  "state_after r = (case r of Inl (e, st) \<Rightarrow> st | Inr st \<Rightarrow> st)"

text \<open>\<open>addTodo(text)\<close>, with the reading \<open>now\<close> that \<open>Date.now()\<close> gives during the call.\<close>

definition addTodo :: "platform \<Rightarrow> int \<Rightarrow> js_string \<Rightarrow> state \<Rightarrow> js_error \<times> state + state" where
  "addTodo P now text st =
     (let trimmedText = trim text in
      if trimmedText = [] then
        Inr (setTodoMessage (js_str ''Please enter a todo before adding.'') st)
      else
        let newTodo = \<lparr>todo_id = Finite (of_int now), todo_text = trimmedText,
                       todo_completed = False\<rparr>;
            pushed = st\<lparr>todos := todos st @ [newTodo]\<rparr>
        in case saveTodosToStorage P pushed of
             Inl e \<Rightarrow> Inl (e, pushed)
           | Inr saved \<Rightarrow> Inr (resetInput (setTodoMessage [] saved)))"

definition toggleTodoCompleted :: "platform \<Rightarrow> js_number \<Rightarrow> state \<Rightarrow> js_error \<times> state + state" where
  "toggleTodoCompleted P i st =
     (let mapped = st\<lparr>todos := map (\<lambda>todo. if strict_equals (todo_id todo) i
                                              then todo\<lparr>todo_completed := \<not> todo_completed todo\<rparr>
                                              else todo) (todos st)\<rparr>
      in case saveTodosToStorage P mapped of
           Inl e \<Rightarrow> Inl (e, mapped)
         | Inr saved \<Rightarrow> Inr saved)"

definition deleteTodo :: "platform \<Rightarrow> js_number \<Rightarrow> state \<Rightarrow> js_error \<times> state + state" where
  "deleteTodo P i st =
     (let filtered = st\<lparr>todos := filter (\<lambda>todo. \<not> strict_equals (todo_id todo) i) (todos st)\<rparr>
      in case saveTodosToStorage P filtered of
           Inl e \<Rightarrow> Inl (e, filtered)
         | Inr saved \<Rightarrow> Inr saved)"

definition setFilter :: "js_string \<Rightarrow> state \<Rightarrow> state" where
  "setFilter f st = st\<lparr>currentFilter := f\<rparr>"

definition getFilteredTodos :: "state \<Rightarrow> todo list" where
  "getFilteredTodos st =
     (if currentFilter st = js_str ''pending'' then
        filter (\<lambda>todo. \<not> todo_completed todo) (todos st)
      else if currentFilter st = js_str ''completed'' then
        filter (\<lambda>todo. todo_completed todo) (todos st)
      else todos st)"

section \<open>Loading\<close>

text \<open>\<open>Boolean(v)\<close>.\<close>

fun ToBoolean :: "js_value \<Rightarrow> bool" where
  "ToBoolean Undefined = False"
| "ToBoolean JNull = False"
| "ToBoolean (JBool b) = b"
| "ToBoolean (JNum n) = (n \<noteq> NaN \<and> n \<noteq> Finite 0)"
| "ToBoolean (JStr s) = (s \<noteq> [])"
| "ToBoolean (JArr xs) = True"
| "ToBoolean (JObj ps) = True"

text \<open>
  \<open>String(v)\<close>. An array is printed by \<open>Array.prototype.join\<close>, which prints
  \<open>undefined\<close> and \<open>null\<close> elements as the empty string. A parsed object has no
  callable property of its own, so it prints as \<open>[object Object]\<close> through
  \<open>Object.prototype.toString\<close> unless an own property \<open>toString\<close> hides that method;
  then no conversion method is left (\<open>valueOf\<close> returns the object) and a TypeError
  is thrown.
\<close>

fun ToString :: "platform \<Rightarrow> js_value \<Rightarrow> js_error + js_string"
  and join :: "platform \<Rightarrow> js_value list \<Rightarrow> js_error + js_string" where
  "ToString P Undefined = Inr (js_str ''undefined'')"
| "ToString P JNull = Inr (js_str ''null'')"
| "ToString P (JBool b) = Inr (if b then js_str ''true'' else js_str ''false'')"
| "ToString P (JNum n) = Inr (NumberToString P n)"
| "ToString P (JStr s) = Inr s"
| "ToString P (JArr xs) = join P xs"
| "ToString P (JObj ps) =
     (case map_of ps (js_str ''toString'') of
        Some m \<Rightarrow> Inl TypeError
      | None \<Rightarrow> Inr (js_str ''[object Object]''))"
| "join P [] = Inr []"
| "join P (x # xs) =
     (case (if x = Undefined \<or> x = JNull then Inr [] else ToString P x) of
        Inl e \<Rightarrow> Inl e
      | Inr s \<Rightarrow>
          (if xs = [] then Inr s
           else case join P xs of
                  Inl e \<Rightarrow> Inl e
                | Inr r \<Rightarrow> Inr (s @ js_str '','' @ r)))"

text \<open>
  \<open>Number(v)\<close>. For an array or an object \<open>valueOf\<close> returns the value itself, so the
  string it prints as is read as a Number.
\<close>

fun ToNumber :: "platform \<Rightarrow> js_value \<Rightarrow> js_error + js_number" where
  "ToNumber P Undefined = Inr NaN"
| "ToNumber P JNull = Inr (Finite 0)"
| "ToNumber P (JBool b) = Inr (if b then Finite 1 else Finite 0)"
| "ToNumber P (JNum n) = Inr n"
| "ToNumber P (JStr s) = Inr (StringToNumber P s)"
| "ToNumber P v =
     (case ToString P v of
        Inl e \<Rightarrow> Inl e
      | Inr s \<Rightarrow> Inr (StringToNumber P s))"

text \<open>
  Reading one of the properties \<open>id\<close>, \<open>text\<close>, \<open>completed\<close> of a value: a TypeError on
  \<open>undefined\<close> and \<open>null\<close>, the own property of an object, and \<open>undefined\<close> otherwise
  (no built-in prototype has a property of these names).
\<close>

fun Get :: "js_value \<Rightarrow> js_string \<Rightarrow> js_error + js_value" where
  "Get Undefined k = Inl TypeError"
| "Get JNull k = Inl TypeError"
| "Get (JObj ps) k = Inr (case map_of ps k of None \<Rightarrow> Undefined | Some v \<Rightarrow> v)"
| "Get v k = Inr Undefined"

text \<open>Sequencing of steps that may throw.\<close>

definition and_then :: "js_error + 'a \<Rightarrow> ('a \<Rightarrow> js_error + 'b) \<Rightarrow> js_error + 'b" where
  "and_then r f = (case r of Inl e \<Rightarrow> Inl e | Inr x \<Rightarrow> f x)"

text \<open>The callback of \<open>parsed.map\<close> in \<open>loadTodosFromStorage\<close>.\<close>

definition coerceItem :: "platform \<Rightarrow> js_value \<Rightarrow> js_error + todo" where
  "coerceItem P item =
     and_then (Get item (js_str ''id'')) (\<lambda>i.
     and_then (ToNumber P i) (\<lambda>n.
     and_then (Get item (js_str ''text'')) (\<lambda>t.
     and_then (ToString P t) (\<lambda>s.
     and_then (Get item (js_str ''completed'')) (\<lambda>c.
     Inr \<lparr>todo_id = n, todo_text = s, todo_completed = ToBoolean c\<rparr>)))))"

text \<open>
  \<open>parsed.map(callback)\<close> with a callback that may throw: the first throw ends it. A
  value that is not an array has no method \<open>map\<close>, and calling it throws a TypeError.
\<close>

fun map_items :: "('a \<Rightarrow> js_error + 'b) \<Rightarrow> 'a list \<Rightarrow> js_error + 'b list" where
  "map_items f [] = Inr []"
| "map_items f (x # xs) =
     and_then (f x) (\<lambda>y. and_then (map_items f xs) (\<lambda>ys. Inr (y # ys)))"

fun Array_map :: "(js_value \<Rightarrow> js_error + 'b) \<Rightarrow> js_value \<Rightarrow> js_error + 'b list" where
  "Array_map f (JArr items) = map_items f items"
| "Array_map f v = Inl TypeError"

fun Array_isArray :: "js_value \<Rightarrow> bool" where
  "Array_isArray (JArr items) = True"
| "Array_isArray v = False"

fun JSON_parse :: "stored_string \<Rightarrow> js_error + js_value" where
  "JSON_parse (JSON_text v) = Inr v"
| "JSON_parse Empty_string = Inl SyntaxError"
| "JSON_parse Not_JSON = Inl SyntaxError"

text \<open>
  The \<open>try\<close> block of \<open>loadTodosFromStorage\<close>. Its only assignments to \<open>todos\<close> are
  its last steps, so a throw leaves the state as it was on entry.
\<close>

definition load_try :: "platform \<Rightarrow> state \<Rightarrow> js_error + state" where
  "load_try P st =
     (case localStorage st of
        None \<Rightarrow> Inr (st\<lparr>todos := []\<rparr>)
      | Some saved \<Rightarrow>
          if saved = Empty_string then Inr (st\<lparr>todos := []\<rparr>)
          else
            and_then (JSON_parse saved) (\<lambda>parsed.
              if Array_isArray parsed then
                and_then (Array_map (coerceItem P) parsed) (\<lambda>ts. Inr (st\<lparr>todos := ts\<rparr>))
              else Inr (st\<lparr>todos := []\<rparr>)))"

text \<open>The whole function: the \<open>catch\<close> clause logs the error and empties \<open>todos\<close>.\<close>

definition loadTodosFromStorage :: "platform \<Rightarrow> state \<Rightarrow> js_error + state" where
  "loadTodosFromStorage P st =
     (case load_try P st of
        Inr st' \<Rightarrow> Inr st'
      | Inl error \<Rightarrow> Inr (st\<lparr>console_errors := console_errors st @ [error], todos := []\<rparr>))"

section \<open>Notions of the specification\<close>

text \<open>
  The specification's filter values, the strings that name them in the program, and
  the predicate the specification attaches to each.
\<close>

datatype Filter = All | Pending | Completed

fun Filter_name :: "Filter \<Rightarrow> js_string" where
  "Filter_name All = js_str ''all''"
| "Filter_name Pending = js_str ''pending''"
| "Filter_name Completed = js_str ''completed''"

fun passes :: "Filter \<Rightarrow> todo \<Rightarrow> bool" where
  "passes All t = True"
| "passes Pending t = (\<not> todo_completed t)"
| "passes Completed t = todo_completed t"

text \<open>
  Sequences of the three mutating operations, as the user's actions trigger them: each
  starts in the state the one before has left, whether it returned or threw.
\<close>

datatype operation = Add int js_string | Toggle js_number | Delete js_number

fun apply_operation :: "platform \<Rightarrow> operation \<Rightarrow> state \<Rightarrow> js_error \<times> state + state" where
  "apply_operation P (Add now text) st = addTodo P now text st"
| "apply_operation P (Toggle i) st = toggleTodoCompleted P i st"
| "apply_operation P (Delete i) st = deleteTodo P i st"

definition run :: "platform \<Rightarrow> operation list \<Rightarrow> state \<Rightarrow> state" where
  "run P ops st = fold (\<lambda>op s. state_after (apply_operation P op s)) ops st"

text \<open>A Number that is neither NaN nor an infinity.\<close>

fun isFinite :: "js_number \<Rightarrow> bool" where
  "isFinite (Finite q) = True"
| "isFinite n = False"

text \<open>
  The value that \<open>JSON.parse\<close> is to read from the text \<open>JSON.stringify\<close> writes for a
  todo.
\<close>

definition SerializeNumber :: "js_number \<Rightarrow> js_value" where
  "SerializeNumber n = (case n of Finite q \<Rightarrow> JNum (Finite q) | _ \<Rightarrow> JNull)"

definition SerializeTodo :: "todo \<Rightarrow> js_value" where
  "SerializeTodo t =
     JObj [(js_str ''id'', SerializeNumber (todo_id t)),
           (js_str ''text'', JStr (todo_text t)),
           (js_str ''completed'', JBool (todo_completed t))]"

text \<open>
  The ids of conforming items. The print of a Number reads back when it is a number
  literal whose value is that Number; the language requires this of the platform for
  every finite Number, and for the safe integers it is proved below
  (\<open>safe_reads_back\<close>). A conforming id is a safe integer, or a finite Number whose
  print reads back.
\<close>

definition reads_back :: "platform \<Rightarrow> js_number \<Rightarrow> bool" where
  "reads_back P n =
     (json_number (Number_toString P n) \<and> read_number P (Number_toString P n) = n)"

definition conforming_id :: "platform \<Rightarrow> js_number \<Rightarrow> bool" where
  "conforming_id P n = (isSafeInteger n \<or> (isFinite n \<and> reads_back P n))"

text \<open>
  The values that \<open>String\<close> and \<open>Number\<close> convert without throwing: no object with an
  own property \<open>toString\<close> is met on the way. The elements of a parsed array that the
  callback of \<open>loadTodosFromStorage\<close> converts without throwing: neither \<open>null\<close> nor
  \<open>undefined\<close>, with convertible \<open>id\<close> and \<open>text\<close>.
\<close>

fun convertible :: "js_value \<Rightarrow> bool" where
  "convertible (JArr xs) = list_all convertible xs"
| "convertible (JObj ps) = (map_of ps (js_str ''toString'') = None)"
| "convertible v = True"

fun property :: "js_value \<Rightarrow> js_string \<Rightarrow> js_value" where
  "property (JObj ps) k = (case map_of ps k of None \<Rightarrow> Undefined | Some v \<Rightarrow> v)"
| "property v k = Undefined"

definition loadable :: "js_value \<Rightarrow> bool" where
  "loadable item =
     (item \<noteq> JNull \<and> item \<noteq> Undefined
      \<and> convertible (property item (js_str ''id''))
      \<and> convertible (property item (js_str ''text'')))"

text \<open>
  A loaded todo holds the conversions of the three properties of the array element it
  comes from.
\<close>

definition coerced :: "platform \<Rightarrow> js_value \<Rightarrow> todo \<Rightarrow> bool" where
  "coerced P item t =
     (ToNumber P (property item (js_str ''id'')) = Inr (todo_id t)
      \<and> ToString P (property item (js_str ''text'')) = Inr (todo_text t)
      \<and> todo_completed t = ToBoolean (property item (js_str ''completed'')))"

section \<open>Example states\<close>

text \<open>
  The scenario of the specification: three items, the second one completed. The entry
  may hold five million code units.
\<close>

definition scenario_todos :: "todo list" where
  "scenario_todos =
     [\<lparr>todo_id = Finite 1, todo_text = js_str ''a'', todo_completed = False\<rparr>,
      \<lparr>todo_id = Finite 2, todo_text = js_str ''b'', todo_completed = True\<rparr>,
      \<lparr>todo_id = Finite 3, todo_text = js_str ''c'', todo_completed = False\<rparr>]"

definition scenario_state :: "js_string \<Rightarrow> state" where
  "scenario_state f =
     \<lparr>todos = scenario_todos, currentFilter = f, localStorage = None, setItem_log = [],
      storage_quota = 5000000, todoMessage = [], todoInput = [], console_errors = []\<rparr>"

text \<open>The scenario on a page whose storage is full.\<close>

definition full_state :: state where
  "full_state = (scenario_state (js_str ''all''))\<lparr>storage_quota := 0\<rparr>"

text \<open>A fresh page whose storage entry is given.\<close>

definition fresh_state :: "stored_string option \<Rightarrow> state" where
  "fresh_state saved =
     \<lparr>todos = [], currentFilter = js_str ''all'', localStorage = saved, setItem_log = [],
      storage_quota = 5000000, todoMessage = [], todoInput = [], console_errors = []\<rparr>"

text \<open>
  The examples fix a platform. None of them converts between strings and Numbers, so
  the two functions are never applied there.
\<close>

definition example_platform :: platform where
  "example_platform =
     \<lparr>StringToNumber = (\<lambda>s. NaN), NumberToString = (\<lambda>n. js_str ''NaN'')\<rparr>"

text \<open>
  The parsed arrays \<open>[{"id":1,"completed":true},{"id":2,"text":""}]\<close> and
  \<open>[{"id":1,"text":"a","completed":false},null]\<close>.
\<close>

definition partial_items :: "js_value list" where
  "partial_items =
     [JObj [(js_str ''id'', JNum (Finite 1)), (js_str ''completed'', JBool True)],
      JObj [(js_str ''id'', JNum (Finite 2)), (js_str ''text'', JStr [])]]"

definition items_with_null :: "js_value list" where
  "items_with_null =
     [JObj [(js_str ''id'', JNum (Finite 1)), (js_str ''text'', JStr (js_str ''a'')),
            (js_str ''completed'', JBool False)],
      JNull]"

section \<open>Auxiliary facts\<close>

lemma all_dropWhile_iff: "(\<forall>x\<in>set (dropWhile P s). P x) \<longleftrightarrow> (\<forall>x\<in>set s. P x)"
proof (cases "dropWhile P s = []")
  case True
  then show ?thesis
    by (auto dest: set_dropWhileD)
next
  case False
  then have "hd (dropWhile P s) \<in> set (dropWhile P s)" and "\<not> P (hd (dropWhile P s))"
    by (simp_all add: hd_dropWhile)
  then show ?thesis
    by (meson set_dropWhileD)
qed

text \<open>The trimmed form is empty exactly for the strings made of white space only.\<close>

lemma trim_empty_iff: "trim s = [] \<longleftrightarrow> list_all isWhiteSpace s"
  by (simp add: trim_def list_all_iff all_dropWhile_iff)

lemma passes_fun:
  "passes All = (\<lambda>t. True)"
  "passes Pending = (\<lambda>t. \<not> todo_completed t)"
  "passes Completed = todo_completed"
  by (simp_all add: fun_eq_iff)

lemma length_filter_split:
  "length xs = length (filter (\<lambda>x. \<not> p x) xs) + length (filter p xs)"
  by (induction xs) simp_all

lemma save_fits:
  "length (JSON_stringify P (todos st)) \<le> storage_quota st \<Longrightarrow>
     saveTodosToStorage P st =
       Inr (st\<lparr>localStorage := Some (stored P (JSON_stringify P (todos st))),
               setItem_log := setItem_log st @ [stored P (JSON_stringify P (todos st))]\<rparr>)"
  by (simp add: saveTodosToStorage_def Let_def)

lemma save_full:
  "storage_quota st < length (JSON_stringify P (todos st)) \<Longrightarrow>
     saveTodosToStorage P st = Inl QuotaExceededError"
  by (simp add: saveTodosToStorage_def Let_def)

lemma save_Inr:
  "saveTodosToStorage P st = Inr saved \<Longrightarrow>
     saved = st\<lparr>localStorage := Some (stored P (JSON_stringify P (todos st))),
                setItem_log := setItem_log st @ [stored P (JSON_stringify P (todos st))]\<rparr>"
  by (auto simp: saveTodosToStorage_def Let_def split: if_splits)

lemma todos_save: "saveTodosToStorage P st = Inr saved \<Longrightarrow> todos saved = todos st"
  by (auto dest: save_Inr)

lemma todos_addTodo:
  "todos (state_after (addTodo P now text st)) =
     (if trim text = [] then todos st
      else todos st @ [\<lparr>todo_id = Finite (of_int now), todo_text = trim text,
                         todo_completed = False\<rparr>])"
  by (auto simp: addTodo_def state_after_def setTodoMessage_def resetInput_def Let_def
      split: sum.splits dest: todos_save)

lemma todos_toggleTodoCompleted:
  "todos (state_after (toggleTodoCompleted P i st)) =
     map (\<lambda>todo. if strict_equals (todo_id todo) i
                  then todo\<lparr>todo_completed := \<not> todo_completed todo\<rparr> else todo) (todos st)"
  by (auto simp: toggleTodoCompleted_def state_after_def Let_def
      split: sum.splits dest: todos_save)

section \<open>Reading back what was written\<close>

subsection \<open>Strings\<close>

lemma hex_value_hex_digit: "d < 16 \<Longrightarrow> hex_value (hex_digit d) = Some d"
proof -
  assume d: "d < 16"
  have u: "unat (of_nat d :: 16 word) = d"
    using d by (simp add: unat_of_nat)
  show ?thesis
  proof (cases "d < 10")
    case True
    then have "unat (0x30 + of_nat d :: 16 word) = 48 + d"
      by (simp add: unat_word_ariths u)
    then have "(0x30 :: 16 word) \<le> 0x30 + of_nat d" "0x30 + of_nat d \<le> (0x39 :: 16 word)"
      "unat (0x30 + of_nat d :: 16 word) - 48 = d"
      using True by (simp_all add: word_le_nat_alt)
    with True show ?thesis
      by (simp add: hex_value_def hex_digit_def)
  next
    case False
    then have e: "unat (0x57 + of_nat d :: 16 word) = 87 + d"
      using d by (simp add: unat_word_ariths u)
    then have "\<not> (0x57 + of_nat d \<le> (0x39 :: 16 word))"
      "(0x61 :: 16 word) \<le> 0x57 + of_nat d" "0x57 + of_nat d \<le> (0x66 :: 16 word)"
      "unat (0x57 + of_nat d :: 16 word) - 87 = d"
      using False d by (simp_all add: word_le_nat_alt)
    with False show ?thesis
      by (simp add: hex_value_def hex_digit_def)
  qed
qed

lemma four_hex_digits:
  "((n div 4096 * 16 + n div 256 mod 16) * 16 + n div 16 mod 16) * 16 + n mod 16 = (n::nat)"
proof -
  have a: "n div 256 = n div 16 div 16" and b: "n div 4096 = n div 16 div 16 div 16"
    by (simp_all add: div_mult2_eq)
  show ?thesis
    unfolding a b by (simp add: div_mult_mod_eq)
qed

lemma parse_chars_UnicodeEscape:
  "parse_chars (UnicodeEscape c @ cs) = add_char c (parse_chars cs)"
proof -
  have "unat c < 65536"
    using unsigned_less [of c, where 'a = nat] by simp
  then have "unat c div 4096 < 16" "unat c div 256 mod 16 < 16" "unat c div 16 mod 16 < 16"
    "unat c mod 16 < 16"
    by simp_all
  moreover have "(of_nat (((unat c div 4096 * 16 + unat c div 256 mod 16) * 16
                    + unat c div 16 mod 16) * 16 + unat c mod 16) :: 16 word) = c"
    by (simp only: four_hex_digits) simp
  ultimately show ?thesis
    by (simp add: UnicodeEscape_def hex_value_hex_digit del: of_nat_add of_nat_mult)
qed

lemma parse_chars_quote_code_point:
  "parse_chars (quote_code_point c @ cs) = add_char c (parse_chars cs)"
  by (simp add: quote_code_point_def parse_chars_UnicodeEscape unescape_def
      del: parse_chars.simps)
    (simp add: unescape_def)

lemma surrogate_plain:
  "is_leading_surrogate c \<or> is_trailing_surrogate c \<Longrightarrow> c \<noteq> 0x22 \<and> c \<noteq> 0x5C \<and> \<not> c < 0x20"
  by (auto simp: is_leading_surrogate_def is_trailing_surrogate_def word_le_nat_alt
      word_less_nat_alt)

lemma parse_chars_quote_chars:
  "parse_chars (quote_chars s @ 0x22 # rest) = Some (s, rest)"
proof (induction s rule: quote_chars.induct)
  case 1
  show ?case by simp
next
  case (2 c)
  show ?case
    by (simp add: parse_chars_quote_code_point add_char_def del: parse_chars.simps) simp
next
  case (3 c d cs)
  show ?case
  proof (cases "is_leading_surrogate c \<and> is_trailing_surrogate d")
    case True
    with surrogate_plain [of c] surrogate_plain [of d] "3.IH"(1) [OF True]
    show ?thesis
      by (simp add: add_char_def)
  next
    case False
    then have "quote_chars (c # d # cs) = quote_code_point c @ quote_chars (d # cs)"
      by auto
    with "3.IH"(2) [OF False] show ?thesis
      by (simp add: parse_chars_quote_code_point add_char_def del: parse_chars.simps)
  qed
qed

subsection \<open>Numbers\<close>

lemma digit_word:
  assumes "d < 10"
  shows "unat (0x30 + of_nat d :: 16 word) = 48 + d" "isDigit (0x30 + of_nat d)"
proof -
  have "unat (of_nat d :: 16 word) = d"
    using assms by (simp add: unat_of_nat)
  then show u: "unat (0x30 + of_nat d :: 16 word) = 48 + d"
    using assms by (simp add: unat_word_ariths)
  then show "isDigit (0x30 + of_nat d)"
    using assms by (simp add: isDigit_def word_le_nat_alt)
qed

lemma decimal_digits: "list_all isDigit (decimal n)"
  by (induction n rule: decimal.induct) (subst decimal.simps, simp add: digit_word)

lemma decimal_nonempty: "decimal n \<noteq> []"
  by (subst decimal.simps) simp

lemma digits_value_snoc: "digits_value (ds @ [c]) = 10 * digits_value ds + (unat c - 48)"
  by (simp add: digits_value_def)

lemma digits_value_decimal: "digits_value (decimal n) = n"
proof (induction n rule: decimal.induct)
  case (1 n)
  show ?case
  proof (cases "n < 10")
    case True
    then show ?thesis
      by (subst decimal.simps) (simp add: digits_value_def digit_word)
  next
    case False
    with 1 have "digits_value (decimal (n div 10)) = n div 10" by simp
    with False show ?thesis
      by (subst decimal.simps) (simp add: digits_value_snoc digit_word)
  qed
qed

lemma decimal_hd: "0 < n \<Longrightarrow> hd (decimal n) \<noteq> 0x30"
proof (induction n rule: decimal.induct)
  case (1 n)
  show ?case
  proof (cases "n < 10")
    case True
    with "1.prems" digit_word(1) [of n]
    have "unat (0x30 + of_nat n :: 16 word) \<noteq> unat (0x30 :: 16 word)"
      by simp
    then have "0x30 + of_nat n \<noteq> (0x30 :: 16 word)" by metis
    with True show ?thesis
      by (subst decimal.simps) simp
  next
    case False
    with 1 have "hd (decimal (n div 10)) \<noteq> 0x30" by simp
    with False show ?thesis
      by (subst decimal.simps) (simp add: decimal_nonempty)
  qed
qed

lemma json_int_decimal: "json_int (decimal n)"
proof (cases "n < 10")
  case True
  then show ?thesis
    by (subst decimal.simps) (simp add: json_int_def)
next
  case False
  then have "hd (decimal n) \<noteq> 0x30" by (simp add: decimal_hd)
  then show ?thesis
    using decimal_nonempty [of n]
    by (cases "decimal n") (auto simp: json_int_def split: list.splits)
qed

lemma isDigit_not_minus: "isDigit c \<Longrightarrow> c \<noteq> 0x2D"
  by (auto simp: isDigit_def)

lemma unsigned_part_digits: "list_all isDigit s \<Longrightarrow> unsigned_part s = s"
  by (cases s) (auto simp: unsigned_part_def dest: isDigit_not_minus)

lemma unsigned_part_minus: "unsigned_part (0x2D # ds) = ds"
  by (simp add: unsigned_part_def)

lemma takeWhile_all: "list_all p xs \<Longrightarrow> takeWhile p xs = xs"
  by (simp add: list_all_iff)

lemma dropWhile_all: "list_all p xs \<Longrightarrow> dropWhile p xs = []"
  by (simp add: list_all_iff)

lemma json_number_unsigned:
  assumes "list_all isDigit ds" "json_int ds" "unsigned_part s = ds"
  shows "json_number s"
  using assms
  by (simp add: json_number_def takeWhile_all dropWhile_all json_frac_def json_exp_def)

lemma json_number_decimal: "json_number (decimal n)" "json_number (0x2D # decimal n)"
  using decimal_digits [of n] json_int_decimal [of n]
  by (simp_all add: json_number_unsigned unsigned_part_digits unsigned_part_minus)

lemma read_number_decimal:
  assumes "n \<le> 9007199254740991"
  shows "read_number P (decimal n) = Finite (of_nat n)"
    "read_number P (0x2D # decimal n) = Finite (- of_nat n)"
proof -
  have "unsigned_part (decimal n) = decimal n"
    by (simp add: unsigned_part_digits decimal_digits)
  then show "read_number P (decimal n) = Finite (of_nat n)"
    using assms decimal_digits [of n] decimal_nonempty [of n]
    by (simp add: read_number_def digits_value_decimal)
  have "decimal n \<noteq> 0x2D # decimal n" by simp
  then show "read_number P (0x2D # decimal n) = Finite (- of_nat n)"
    using assms decimal_digits [of n] decimal_nonempty [of n]
    by (simp add: read_number_def digits_value_decimal unsigned_part_minus)
qed

text \<open>The print of a safe integer is a number literal whose value is that integer.\<close>

lemma safe_reads_back:
  assumes "isSafeInteger n"
  shows "reads_back P n"
proof -
  from assms obtain q where n: "n = Finite q" and i: "of_int \<lfloor>q\<rfloor> = q"
    and b: "\<bar>q\<bar> \<le> 9007199254740991"
    by (cases n) simp_all
  define k where "k = \<lfloor>q\<rfloor>"
  from i [symmetric] have q: "q = of_int k" unfolding k_def .
  from b have k: "\<bar>k\<bar> \<le> 9007199254740991"
    unfolding q by (simp only: of_int_abs [symmetric] of_int_le_numeral_iff)
  show ?thesis
  proof (cases "k < 0")
    case True
    have f: "\<lfloor>- q\<rfloor> = - k"
      unfolding q by (simp only: of_int_minus [symmetric] floor_of_int)
    from True k have le: "nat (- k) \<le> 9007199254740991" by simp
    from True have e: "(of_nat (nat (- k)) :: rat) = of_int (- k)"
      by simp
    from True have "q < 0" by (simp add: q)
    with n assms e show ?thesis
      by (simp add: reads_back_def Number_toString_def json_number_decimal f
          read_number_decimal [OF le])
        (simp add: q)
  next
    case False
    have f: "\<lfloor>q\<rfloor> = k" by (simp add: k_def)
    from False k have le: "nat k \<le> 9007199254740991" by simp
    from False have e: "(of_nat (nat k) :: rat) = of_int k"
      by simp
    from False have "\<not> q < 0" by (simp add: q)
    with n assms e show ?thesis
      by (simp add: reads_back_def Number_toString_def json_number_decimal f
          read_number_decimal [OF le])
  qed
qed

lemma numberish_digit: "isDigit c \<Longrightarrow> numberish c"
  by (simp add: numberish_def)

lemma json_frac_numberish: "json_frac f \<Longrightarrow> list_all numberish f"
  by (cases f) (auto simp: json_frac_def list_all_iff numberish_def)

lemma json_exp_numberish:
  assumes "json_exp x" "x = dropWhile (\<lambda>c. c \<noteq> 0x45 \<and> c \<noteq> 0x65) r"
  shows "list_all numberish x"
proof (cases x)
  case Nil
  then show ?thesis by simp
next
  case (Cons e t)
  with assms(2) have "\<not> (e \<noteq> 0x45 \<and> e \<noteq> 0x65)"
    using hd_dropWhile [of "\<lambda>c. c \<noteq> 0x45 \<and> c \<noteq> 0x65" r] by (metis list.discI list.sel(1))
  then have e: "numberish e" by (auto simp: numberish_def)
  from assms(1) Cons have "list_all numberish t"
    by (cases t) (auto simp: json_exp_def list_all_iff numberish_def split: if_splits)
  with e Cons show ?thesis by simp
qed

lemma json_number_unsigned_shape:
  assumes "json_number s"
  shows "unsigned_part s \<noteq> []" "isDigit (hd (unsigned_part s))"
    "list_all numberish (unsigned_part s)"
proof -
  define u where "u = unsigned_part s"
  define i where "i = takeWhile isDigit u"
  define r where "r = dropWhile isDigit u"
  define f where "f = takeWhile (\<lambda>c. c \<noteq> 0x45 \<and> c \<noteq> 0x65) r"
  define x where "x = dropWhile (\<lambda>c. c \<noteq> 0x45 \<and> c \<noteq> 0x65) r"
  from assms have j: "json_int i" "json_frac f" "json_exp x"
    by (simp_all add: json_number_def u_def i_def r_def f_def x_def Let_def)
  from j(1) have i: "i \<noteq> []"
    by (auto simp: json_int_def)
  then have "u \<noteq> []" by (auto simp: i_def)
  then show "unsigned_part s \<noteq> []" by (simp add: u_def)
  from i have "hd u = hd i"
    by (cases u) (auto simp: i_def split: if_splits)
  moreover have id: "list_all isDigit i"
    by (auto simp: i_def list_all_iff dest: set_takeWhileD)
  then have "isDigit (hd i)" using i by (cases i) simp_all
  ultimately show "isDigit (hd (unsigned_part s))" by (simp add: u_def)
  have "u = i @ f @ x"
    by (simp add: i_def r_def f_def x_def)
  moreover from id have "list_all numberish i"
    by (auto simp: list_all_iff numberish_digit)
  moreover note json_frac_numberish [OF j(2)] json_exp_numberish [OF j(3) x_def]
  ultimately show "list_all numberish (unsigned_part s)"
    by (simp add: u_def)
qed

lemma json_number_shape:
  assumes "json_number s"
  shows "\<exists>c cs. s = c # cs \<and> (c = 0x2D \<or> isDigit c)" "list_all numberish s"
proof -
  note u = json_number_unsigned_shape [OF assms]
  show "\<exists>c cs. s = c # cs \<and> (c = 0x2D \<or> isDigit c)"
  proof (cases s)
    case Nil
    with u(1) show ?thesis by (simp add: unsigned_part_def)
  next
    case (Cons c cs)
    with u(2) show ?thesis
      by (cases "c = 0x2D") (simp_all add: unsigned_part_def)
  qed
  show "list_all numberish s"
  proof (cases s)
    case Nil
    then show ?thesis by simp
  next
    case (Cons c cs)
    with u(3) show ?thesis
      by (cases "c = 0x2D") (simp_all add: unsigned_part_def numberish_def)
  qed
qed

lemma takeWhile_append_stop:
  "list_all p xs \<Longrightarrow> \<not> p d \<Longrightarrow> takeWhile p (xs @ d # rest) = xs"
  "list_all p xs \<Longrightarrow> \<not> p d \<Longrightarrow> dropWhile p (xs @ d # rest) = d # rest"
  by (induction xs) simp_all

lemma digit_first:
  "c = 0x2D \<or> isDigit c \<Longrightarrow>
     c \<noteq> 0x22 \<and> c \<noteq> 0x5B \<and> c \<noteq> 0x7B \<and> c \<noteq> 0x74 \<and> c \<noteq> 0x66 \<and> c \<noteq> 0x6E \<and> \<not> JSON_ws c"
  by (auto simp: isDigit_def JSON_ws_def)

lemma parse_value_number:
  assumes "json_number tok" "\<not> numberish d"
  shows "parse_value P (tok @ d # rest) = Some (JNum (read_number P tok), d # rest)"
proof -
  from json_number_shape(1) [OF assms(1)] obtain c cs
    where tok: "tok = c # cs" and c: "c = 0x2D \<or> isDigit c" by blast
  note n = json_number_shape(2) [OF assms(1)]
  have t: "takeWhile numberish (c # cs @ d # rest) = tok"
    "dropWhile numberish (c # cs @ d # rest) = d # rest"
    using takeWhile_append_stop [OF n assms(2), of rest] by (simp_all add: tok)
  from digit_first [OF c] have
    "take 4 (c # cs @ d # rest) \<noteq> js_str ''true''"
    "take 5 (c # cs @ d # rest) \<noteq> js_str ''false''"
    "take 4 (c # cs @ d # rest) \<noteq> js_str ''null''"
    by (auto simp: js_str_def)
  with digit_first [OF c] c assms(1) show ?thesis
    unfolding tok append_Cons parse_value.simps t
    by (simp add: tok)
qed

subsection \<open>Todos\<close>

lemma js_str_neq [simp]:
  "js_str ''id'' \<noteq> js_str ''text''"
  "js_str ''id'' \<noteq> js_str ''completed''"
  "js_str ''text'' \<noteq> js_str ''id''"
  "js_str ''text'' \<noteq> js_str ''completed''"
  "js_str ''completed'' \<noteq> js_str ''id''"
  "js_str ''completed'' \<noteq> js_str ''text''"
  by (simp_all add: js_str_def)

lemma skip_ws_Cons: "\<not> JSON_ws c \<Longrightarrow> skip_ws (c # cs) = c # cs"
  by (simp add: skip_ws_def)

lemma not_ws [simp]:
  "\<not> JSON_ws 0x22" "\<not> JSON_ws 0x2C" "\<not> JSON_ws 0x3A" "\<not> JSON_ws 0x5B" "\<not> JSON_ws 0x5D"
  "\<not> JSON_ws 0x7B" "\<not> JSON_ws 0x7D"
  by (simp_all add: JSON_ws_def)

lemma not_numberish [simp]: "\<not> numberish 0x2C"
  by (simp add: numberish_def isDigit_def)

lemma parse_value_string:
  "parse_value P (QuoteJSONString s @ rest) = Some (JStr s, rest)"
  by (simp add: QuoteJSONString_def parse_chars_quote_chars)

lemma parse_value_boolean:
  "parse_value P (JSON_boolean b @ rest) = Some (JBool b, rest)"
  by (simp add: JSON_boolean_def js_str_def)

lemma JSON_number_value:
  assumes "\<not> isFinite n \<or> reads_back P n"
  shows "parse_value P (JSON_number P n @ 0x2C # rest) = Some (SerializeNumber n, 0x2C # rest)"
    and "skip_ws (JSON_number P n @ 0x2C # rest) = JSON_number P n @ 0x2C # rest"
proof -
  show "parse_value P (JSON_number P n @ 0x2C # rest) = Some (SerializeNumber n, 0x2C # rest)"
  proof (cases n)
    case (Finite q)
    with assms have r: "json_number (Number_toString P n)"
      "read_number P (Number_toString P n) = n"
      by (simp_all add: reads_back_def)
    from parse_value_number [OF r(1), of "0x2C" P rest] r(2) Finite show ?thesis
      by (simp add: JSON_number_def SerializeNumber_def)
  qed (simp_all add: JSON_number_def SerializeNumber_def js_str_def)
  show "skip_ws (JSON_number P n @ 0x2C # rest) = JSON_number P n @ 0x2C # rest"
  proof (cases n)
    case (Finite q)
    with assms have "json_number (Number_toString P n)"
      by (simp add: reads_back_def)
    from json_number_shape(1) [OF this] obtain c cs
      where "Number_toString P n = c # cs" "c = 0x2D \<or> isDigit c" by blast
    with digit_first [of c] Finite show ?thesis
      by (simp add: JSON_number_def skip_ws_Cons)
  qed (simp_all add: JSON_number_def js_str_def skip_ws_def JSON_ws_def)
qed

lemma parse_value_todo:
  assumes "\<not> isFinite (todo_id t) \<or> reads_back P (todo_id t)"
  shows "parse_value P (JSON_todo P t @ rest) = Some (SerializeTodo t, rest)"
proof -
  note n = JSON_number_value [OF assms]
  have b: "skip_ws (JSON_boolean b @ r) = JSON_boolean b @ r" for b r
    by (simp add: JSON_boolean_def js_str_def skip_ws_def JSON_ws_def)
  show ?thesis
    by (simp add: JSON_todo_def SerializeTodo_def skip_ws_Cons)
      (simp add: QuoteJSONString_def parse_chars_quote_chars skip_ws_Cons n b
        parse_value_boolean parse_value_string [unfolded QuoteJSONString_def, simplified])
qed

lemma JSON_todo_Cons: "\<exists>body. JSON_todo P t = 0x7B # body"
  by (simp add: JSON_todo_def)

lemma parse_elements_todos:
  assumes "\<And>t. t \<in> set ts \<Longrightarrow> \<not> isFinite (todo_id t) \<or> reads_back P (todo_id t)" "ts \<noteq> []"
  shows "parse_elements P (join_commas (map (JSON_todo P) ts) @ 0x5D # rest) =
           Some (map SerializeTodo ts, rest)"
  using assms(2,1)
proof (induction ts rule: list_nonempty_induct)
  case (single t)
  then have v: "parse_value P (JSON_todo P t @ 0x5D # rest) = Some (SerializeTodo t, 0x5D # rest)"
    by (simp add: parse_value_todo)
  obtain body where b: "JSON_todo P t = 0x7B # body"
    using JSON_todo_Cons by blast
  show ?case
    using v by (simp add: b skip_ws_Cons)
next
  case (cons t ts)
  then have v: "\<And>r. parse_value P (JSON_todo P t @ r) = Some (SerializeTodo t, r)"
    by (simp add: parse_value_todo)
  from cons have IH: "parse_elements P (join_commas (map (JSON_todo P) ts) @ 0x5D # rest) =
           Some (map SerializeTodo ts, rest)"
    by simp
  obtain body where b: "JSON_todo P t = 0x7B # body"
    using JSON_todo_Cons by blast
  from cons.hyps obtain u us where ts: "ts = u # us"
    by (cases ts) simp_all
  obtain body' where b': "JSON_todo P u = 0x7B # body'"
    using JSON_todo_Cons by blast
  have s: "skip_ws (join_commas (map (JSON_todo P) ts) @ 0x5D # rest)
           = join_commas (map (JSON_todo P) ts) @ 0x5D # rest"
    by (cases us) (simp_all add: ts b' skip_ws_Cons)
  have "parse_elements P (JSON_todo P t @ 0x2C # join_commas (map (JSON_todo P) ts) @ 0x5D # rest)
        = Some (SerializeTodo t # map SerializeTodo ts, rest)"
    using v [of "0x2C # join_commas (map (JSON_todo P) ts) @ 0x5D # rest"] IH
    by (simp add: b skip_ws_Cons s [unfolded b])
  then show ?case
    by (simp add: ts)
qed

text \<open>
  The text written for a collection is read as the array of the values of its todos,
  when every finite id has a print that reads back.
\<close>

lemma JSON_parse_stringify:
  assumes "\<And>t. t \<in> set ts \<Longrightarrow> \<not> isFinite (todo_id t) \<or> reads_back P (todo_id t)"
  shows "JSON_parse_text P (JSON_stringify P ts) = Inr (JArr (map SerializeTodo ts))"
proof (cases ts)
  case Nil
  then show ?thesis
    by (simp add: JSON_parse_text_def JSON_stringify_def skip_ws_Cons) (simp add: skip_ws_def)
next
  case (Cons t us)
  then have ne: "ts \<noteq> []" by simp
  obtain body where b: "JSON_todo P t = 0x7B # body"
    using JSON_todo_Cons by blast
  have "\<exists>r. join_commas (map (JSON_todo P) ts) @ [0x5D] = 0x7B # r"
    by (cases us) (simp_all add: Cons b)
  then obtain r where r: "join_commas (map (JSON_todo P) ts) @ [0x5D] = 0x7B # r" ..
  from parse_elements_todos [OF assms ne, of "[]"]
  have "parse_elements P (0x7B # r) = Some (map SerializeTodo ts, [])"
    by (simp add: r)
  then show ?thesis
    by (simp add: JSON_parse_text_def JSON_stringify_def skip_ws_Cons r) (simp add: skip_ws_def)
qed

lemma stored_JSON_stringify:
  assumes "\<And>t. t \<in> set ts \<Longrightarrow> \<not> isFinite (todo_id t) \<or> reads_back P (todo_id t)"
  shows "stored P (JSON_stringify P ts) = JSON_text (JArr (map SerializeTodo ts))"
  using JSON_parse_stringify [OF assms]
  by (simp add: stored_def) (simp add: JSON_stringify_def)


text \<open>The entry represents the text as far as \<open>JSON.parse\<close> reads it.\<close>

lemma JSON_parse_stored: "JSON_parse (stored P text) = JSON_parse_text P text"
proof (cases "text = []")
  case True
  then show ?thesis
    by (simp add: stored_def JSON_parse_text_def skip_ws_def)
next
  case False
  then show ?thesis
    by (auto simp: stored_def JSON_parse_text_def split: sum.splits option.splits)
qed

section \<open>Adding\<close>

text \<open>
  Against claim C1 as stated: the id of the new item is the clock reading, and nothing
  keeps it apart from the ids already in the collection. Two additions at the same
  clock reading, starting from the empty collection, give two items of the same id.
\<close>

theorem addTodo_id_counterexample:
  "trim (js_str ''b'') \<noteq> []
   \<and> map todo_id (todos (state_after
         (addTodo example_platform 1700000000000 (js_str ''a'') (fresh_state None)))) =
       [Finite 1700000000000]
   \<and> map todo_id (todos (state_after
         (addTodo example_platform 1700000000000 (js_str ''b'')
            (state_after
               (addTodo example_platform 1700000000000 (js_str ''a'') (fresh_state None)))))) =
       [Finite 1700000000000, Finite 1700000000000]"
  by (simp add: todos_addTodo trim_def js_str_def isWhiteSpace_def fresh_state_def)

text \<open>
  Claim C1, amended. For every input string whose trimmed form is non-empty, \<open>addTodo\<close>
  appends exactly one new item to the end of the collection, with text equal to the
  trimmed input, \<open>completed\<close> false and id equal to the clock reading of the call; the
  rest of the collection is unchanged. It then writes the new collection to storage:
  when the text written fits the entry, the entry holds it after exactly one write, the
  message and the input are cleared and the call returns; when \<open>setItem\<close> throws, the
  exception leaves the call with the item in the collection, nothing written, and the
  message and the input as they were. The id is new, and ids stay pairwise distinct,
  when no item of the collection carries that clock reading. The function returns no
  value: the created item is the last element of the collection.
\<close>

theorem addTodo_appends:
  assumes "trim text \<noteq> []"
  shows "(let pushed = todos st @ [\<lparr>todo_id = Finite (of_int now), todo_text = trim text,
                                     todo_completed = False\<rparr>];
              written = JSON_stringify P pushed
          in todos (state_after (addTodo P now text st)) = pushed
           \<and> (length written \<le> storage_quota st \<longrightarrow>
                addTodo P now text st =
                  Inr (st\<lparr>todos := pushed, localStorage := Some (stored P written),
                          setItem_log := setItem_log st @ [stored P written],
                          todoMessage := [], todoInput := []\<rparr>))
           \<and> (storage_quota st < length written \<longrightarrow>
                addTodo P now text st = Inl (QuotaExceededError, st\<lparr>todos := pushed\<rparr>))
           \<and> (Finite (of_int now) \<notin> set (map todo_id (todos st)) \<longrightarrow>
                distinct (map todo_id (todos st)) \<longrightarrow> distinct (map todo_id pushed)))"
  using assms
  by (simp add: Let_def todos_addTodo)
    (simp add: addTodo_def setTodoMessage_def resetInput_def saveTodosToStorage_def Let_def)

lemmas written_text =
  JSON_stringify_def JSON_todo_def JSON_number_def JSON_boolean_def Number_toString_def
  QuoteJSONString_def quote_code_point_def is_leading_surrogate_def
  is_trailing_surrogate_def decimal.simps js_str_def

theorem addTodo_appends_witness:
  "trim (js_str '' buy milk '') \<noteq> []
   \<and> addTodo example_platform 4 (js_str '' buy milk '') (scenario_state (js_str ''all'')) =
       Inr (state_after
              (addTodo example_platform 4 (js_str '' buy milk '') (scenario_state (js_str ''all''))))
   \<and> todos (state_after
        (addTodo example_platform 4 (js_str '' buy milk '') (scenario_state (js_str ''all'')))) =
       scenario_todos @ [\<lparr>todo_id = Finite 4, todo_text = js_str ''buy milk'',
                           todo_completed = False\<rparr>]
   \<and> distinct (map todo_id (todos (state_after
        (addTodo example_platform 4 (js_str '' buy milk '') (scenario_state (js_str ''all''))))))
   \<and> addTodo example_platform 4 (js_str '' buy milk '') full_state =
       Inl (QuotaExceededError,
            full_state\<lparr>todos := scenario_todos @ [\<lparr>todo_id = Finite 4,
                                   todo_text = js_str ''buy milk'', todo_completed = False\<rparr>]\<rparr>)"
proof -
  have t: "trim (js_str '' buy milk '') = js_str ''buy milk''"
    by (simp add: trim_def js_str_def isWhiteSpace_def)
  have h: "trim (js_str '' buy milk '') \<noteq> []"
    by (simp add: t) (simp add: js_str_def)
  have f: "Finite (of_int 4) \<notin> set (map todo_id (todos (scenario_state (js_str ''all''))))"
    by (simp add: scenario_state_def scenario_todos_def)
  have d: "distinct (map todo_id (todos (scenario_state (js_str ''all''))))"
    by (simp add: scenario_state_def scenario_todos_def)
  have w: "length (JSON_stringify example_platform
             (scenario_todos @ [\<lparr>todo_id = Finite 4, todo_text = js_str ''buy milk'',
                                 todo_completed = False\<rparr>])) = 159"
    by (simp add: written_text scenario_todos_def)
  from w have fits: "length (JSON_stringify example_platform
             (todos (scenario_state (js_str ''all'')) @ [\<lparr>todo_id = Finite (of_int 4),
                todo_text = trim (js_str '' buy milk ''), todo_completed = False\<rparr>]))
           \<le> storage_quota (scenario_state (js_str ''all''))"
    by (simp add: t scenario_state_def)
  from w have full: "storage_quota full_state < length (JSON_stringify example_platform
             (todos full_state @ [\<lparr>todo_id = Finite (of_int 4),
                todo_text = trim (js_str '' buy milk ''), todo_completed = False\<rparr>]))"
    by (simp add: t full_state_def scenario_state_def)
  show ?thesis
    using h f d fits full
      addTodo_appends [OF h, of "scenario_state (js_str ''all'')" 4 example_platform]
      addTodo_appends [OF h, of full_state 4 example_platform]
    by (simp add: Let_def t state_after_def) (simp add: scenario_state_def full_state_def)
qed

text \<open>
  Claim C2. For every input string whose trimmed form is empty (by \<open>trim_empty_iff\<close>:
  the empty string and the strings of white space only), \<open>addTodo\<close> changes neither the
  collection nor the storage entry, makes no write to storage, and signals the empty
  input through the advisory message.
\<close>

theorem addTodo_empty_input:
  assumes "trim text = []"
  shows "addTodo P now text st =
           Inr (st\<lparr>todoMessage := js_str ''Please enter a todo before adding.''\<rparr>)
       \<and> todos (state_after (addTodo P now text st)) = todos st
       \<and> localStorage (state_after (addTodo P now text st)) = localStorage st
       \<and> setItem_log (state_after (addTodo P now text st)) = setItem_log st
       \<and> todoMessage (state_after (addTodo P now text st)) =
           js_str ''Please enter a todo before adding.''"
  using assms by (simp add: addTodo_def setTodoMessage_def state_after_def)

theorem addTodo_empty_input_witness:
  "trim (js_str ''   '') = [] \<and> trim [] = []
   \<and> todos (state_after (addTodo example_platform 5 (js_str ''   '') (scenario_state (js_str ''all''))))
       = scenario_todos
   \<and> localStorage (state_after
        (addTodo example_platform 5 (js_str ''   '') (scenario_state (js_str ''all'')))) = None
   \<and> setItem_log (state_after
        (addTodo example_platform 5 (js_str ''   '') (scenario_state (js_str ''all'')))) = []
   \<and> todos (state_after (addTodo example_platform 5 [] (scenario_state (js_str ''all''))))
       = scenario_todos
   \<and> setItem_log (state_after (addTodo example_platform 5 [] (scenario_state (js_str ''all''))))
       = []"
proof -
  have h: "trim (js_str ''   '') = []"
    by (simp add: trim_def js_str_def isWhiteSpace_def)
  have e: "trim [] = []"
    by (simp add: trim_def)
  show ?thesis
    using h e
      addTodo_empty_input [OF h, of example_platform 5 "scenario_state (js_str ''all'')"]
      addTodo_empty_input [OF e, of example_platform 5 "scenario_state (js_str ''all'')"]
    by (simp add: scenario_state_def state_after_def)
qed

section \<open>Filtering and counting\<close>

text \<open>
  Claim C5. For every collection and every active filter, \<open>getFilteredTodos\<close> returns
  exactly the items of the collection that pass the filter's predicate (Pending: not
  completed, Completed: completed, All: every item), in their original order.
\<close>

theorem getFilteredTodos_filter:
  assumes "currentFilter st = Filter_name f"
  shows "getFilteredTodos st = filter (passes f) (todos st)
       \<and> subseq (getFilteredTodos st) (todos st)"
proof -
  have "getFilteredTodos st = filter (passes f) (todos st)"
    using assms by (cases f) (simp_all add: getFilteredTodos_def js_str_def passes_fun)
  then show ?thesis by simp
qed

theorem getFilteredTodos_filter_witness:
  "currentFilter (scenario_state (js_str ''pending'')) = Filter_name Pending
   \<and> getFilteredTodos (scenario_state (js_str ''pending'')) =
       [\<lparr>todo_id = Finite 1, todo_text = js_str ''a'', todo_completed = False\<rparr>,
        \<lparr>todo_id = Finite 3, todo_text = js_str ''c'', todo_completed = False\<rparr>]
   \<and> currentFilter (scenario_state (js_str ''completed'')) = Filter_name Completed
   \<and> getFilteredTodos (scenario_state (js_str ''completed'')) =
       [\<lparr>todo_id = Finite 2, todo_text = js_str ''b'', todo_completed = True\<rparr>]
   \<and> currentFilter (scenario_state (js_str ''all'')) = Filter_name All
   \<and> getFilteredTodos (scenario_state (js_str ''all'')) = scenario_todos"
proof -
  have p: "currentFilter (scenario_state (js_str ''pending'')) = Filter_name Pending"
    and c: "currentFilter (scenario_state (js_str ''completed'')) = Filter_name Completed"
    and a: "currentFilter (scenario_state (js_str ''all'')) = Filter_name All"
    by (simp_all add: scenario_state_def)
  show ?thesis
    using p c a getFilteredTodos_filter [OF p] getFilteredTodos_filter [OF c]
      getFilteredTodos_filter [OF a]
    by (simp add: scenario_state_def scenario_todos_def)
qed

text \<open>
  Claim C6. After every sequence of add, toggle and delete operations, from any state
  and whether or not their writes to storage succeed, the counter has
  total = pending + completed, where total is the length of the
  collection, pending the number of items not completed and completed the number of
  completed items.
\<close>

theorem counter_total:
  "(case updateTodoCounter (run P ops st) of
      (n_total, n_pending, n_completed) \<Rightarrow>
        n_total = n_pending + n_completed
        \<and> n_total = length (todos (run P ops st))
        \<and> n_pending = length (filter (passes Pending) (todos (run P ops st)))
        \<and> n_completed = length (filter (passes Completed) (todos (run P ops st))))"
  using length_filter_split [of "todos (run P ops st)" todo_completed]
  by (simp add: updateTodoCounter_def passes_fun)

text \<open>
  Claim C9. For every filter value, \<open>setFilter\<close> changes the active filter only: the
  collection and the storage entry are unchanged and no write to storage is made.
\<close>

theorem setFilter_frame:
  "setFilter f st = st\<lparr>currentFilter := f\<rparr>
   \<and> currentFilter (setFilter f st) = f
   \<and> todos (setFilter f st) = todos st
   \<and> localStorage (setFilter f st) = localStorage st
   \<and> setItem_log (setFilter f st) = setItem_log st"
  by (simp add: setFilter_def)

section \<open>Toggling\<close>

text \<open>
  Claim C7. For every collection and every id, toggling the id twice in succession gives
  back the collection as it was: every item has the \<open>completed\<close> value it had before
  the first call.
\<close>

theorem toggle_twice:
  "todos (state_after (toggleTodoCompleted P i (state_after (toggleTodoCompleted P i st)))) =
     todos st"
  by (simp add: todos_toggleTodoCompleted o_def map_idI)

text \<open>
  Against claim C8 as stated: toggling an id that no item has leaves the collection as
  it is, and yet a write to storage is made.
\<close>

theorem toggle_absent_counterexample:
  "list_all (\<lambda>t. \<not> strict_equals (todo_id t) (Finite 9)) (todos (scenario_state (js_str ''all'')))
   \<and> toggleTodoCompleted example_platform (Finite 9) (scenario_state (js_str ''all'')) =
       Inr ((scenario_state (js_str ''all''))
              \<lparr>localStorage := Some (JSON_text (JArr (map SerializeTodo scenario_todos))),
                setItem_log := [JSON_text (JArr (map SerializeTodo scenario_todos))]\<rparr>)
   \<and> setItem_log (scenario_state (js_str ''all'')) = []"
proof -
  have m: "map (\<lambda>todo. if strict_equals (todo_id todo) (Finite 9)
                        then todo\<lparr>todo_completed := \<not> todo_completed todo\<rparr> else todo)
             scenario_todos = scenario_todos"
    by (simp add: scenario_todos_def strict_equals_def)
  have w: "length (JSON_stringify example_platform scenario_todos) = 114"
    by (simp add: written_text scenario_todos_def)
  have "reads_back example_platform (todo_id t)" if "t \<in> set scenario_todos" for t
    using that by (auto simp: scenario_todos_def intro: safe_reads_back)
  then have s: "stored example_platform (JSON_stringify example_platform scenario_todos) =
           JSON_text (JArr (map SerializeTodo scenario_todos))"
    by (simp add: stored_JSON_stringify)
  show ?thesis
    by (simp add: toggleTodoCompleted_def scenario_state_def m save_fits w s)
      (simp add: scenario_todos_def strict_equals_def)
qed

text \<open>
  Claim C8, amended. For every id, \<open>toggleTodoCompleted\<close> flips \<open>completed\<close> on every
  item whose id is strictly equal to it and leaves the ids, the texts, the other items
  and the order as they are; when no item has the id, the collection is unchanged (no
  signal is given). In both cases it then writes the resulting collection to storage:
  when the text written fits the entry, the entry holds it after exactly one write and
  the call returns; when \<open>setItem\<close> throws, the exception leaves the call with the
  collection as changed and nothing written.
\<close>

theorem toggle_effect:
  "(let toggled = todos (state_after (toggleTodoCompleted P i st));
        written = JSON_stringify P toggled
    in length toggled = length (todos st)
     \<and> (\<forall>k<length (todos st).
          todo_id (toggled ! k) = todo_id (todos st ! k)
          \<and> todo_text (toggled ! k) = todo_text (todos st ! k)
          \<and> todo_completed (toggled ! k) =
              (if strict_equals (todo_id (todos st ! k)) i
               then \<not> todo_completed (todos st ! k) else todo_completed (todos st ! k)))
     \<and> (list_all (\<lambda>t. \<not> strict_equals (todo_id t) i) (todos st) \<longrightarrow> toggled = todos st)
     \<and> (length written \<le> storage_quota st \<longrightarrow>
          toggleTodoCompleted P i st =
            Inr (st\<lparr>todos := toggled, localStorage := Some (stored P written),
                    setItem_log := setItem_log st @ [stored P written]\<rparr>))
     \<and> (storage_quota st < length written \<longrightarrow>
          toggleTodoCompleted P i st = Inl (QuotaExceededError, st\<lparr>todos := toggled\<rparr>)))"
  by (simp add: Let_def todos_toggleTodoCompleted list_all_iff map_idI)
    (simp add: toggleTodoCompleted_def saveTodosToStorage_def Let_def)

theorem toggle_effect_witness:
  "todos (state_after (toggleTodoCompleted example_platform (Finite 2) (scenario_state (js_str ''all'')))) =
     [\<lparr>todo_id = Finite 1, todo_text = js_str ''a'', todo_completed = False\<rparr>,
      \<lparr>todo_id = Finite 2, todo_text = js_str ''b'', todo_completed = False\<rparr>,
      \<lparr>todo_id = Finite 3, todo_text = js_str ''c'', todo_completed = False\<rparr>]
   \<and> toggleTodoCompleted example_platform (Finite 2) (scenario_state (js_str ''all'')) =
       Inr (state_after
              (toggleTodoCompleted example_platform (Finite 2) (scenario_state (js_str ''all''))))
   \<and> list_all (\<lambda>t. \<not> strict_equals (todo_id t) (Finite 9)) (todos (scenario_state (js_str ''all'')))
   \<and> todos (state_after (toggleTodoCompleted example_platform (Finite 9) (scenario_state (js_str ''all''))))
       = scenario_todos
   \<and> toggleTodoCompleted example_platform (Finite 2) full_state =
       Inl (QuotaExceededError,
            full_state\<lparr>todos :=
              [\<lparr>todo_id = Finite 1, todo_text = js_str ''a'', todo_completed = False\<rparr>,
               \<lparr>todo_id = Finite 2, todo_text = js_str ''b'', todo_completed = False\<rparr>,
               \<lparr>todo_id = Finite 3, todo_text = js_str ''c'', todo_completed = False\<rparr>]\<rparr>)"
proof -
  have t2: "todos (state_after (toggleTodoCompleted example_platform (Finite 2)
                     (scenario_state (js_str ''all'')))) =
     [\<lparr>todo_id = Finite 1, todo_text = js_str ''a'', todo_completed = False\<rparr>,
      \<lparr>todo_id = Finite 2, todo_text = js_str ''b'', todo_completed = False\<rparr>,
      \<lparr>todo_id = Finite 3, todo_text = js_str ''c'', todo_completed = False\<rparr>]"
    and t2': "todos (state_after (toggleTodoCompleted example_platform (Finite 2) full_state)) =
     [\<lparr>todo_id = Finite 1, todo_text = js_str ''a'', todo_completed = False\<rparr>,
      \<lparr>todo_id = Finite 2, todo_text = js_str ''b'', todo_completed = False\<rparr>,
      \<lparr>todo_id = Finite 3, todo_text = js_str ''c'', todo_completed = False\<rparr>]"
    and t9: "todos (state_after (toggleTodoCompleted example_platform (Finite 9)
                     (scenario_state (js_str ''all'')))) = scenario_todos"
    by (simp_all add: todos_toggleTodoCompleted scenario_state_def full_state_def
        scenario_todos_def strict_equals_def)
  have w: "length (JSON_stringify example_platform
             [\<lparr>todo_id = Finite 1, todo_text = js_str ''a'', todo_completed = False\<rparr>,
              \<lparr>todo_id = Finite 2, todo_text = js_str ''b'', todo_completed = False\<rparr>,
              \<lparr>todo_id = Finite 3, todo_text = js_str ''c'', todo_completed = False\<rparr>]) = 115"
    by (simp add: written_text)
  have n: "list_all (\<lambda>t. \<not> strict_equals (todo_id t) (Finite 9))
             (todos (scenario_state (js_str ''all'')))"
    by (simp add: scenario_state_def scenario_todos_def strict_equals_def)
  have fits: "length (JSON_stringify example_platform
                (todos (state_after (toggleTodoCompleted example_platform (Finite 2)
                   (scenario_state (js_str ''all''))))))
              \<le> storage_quota (scenario_state (js_str ''all''))"
    by (simp add: t2 w) (simp add: scenario_state_def)
  have full: "storage_quota full_state
              < length (JSON_stringify example_platform
                  (todos (state_after (toggleTodoCompleted example_platform (Finite 2) full_state))))"
    by (simp add: t2' w) (simp add: full_state_def)
  from toggle_effect [of example_platform "Finite 2" "scenario_state (js_str ''all'')"] fits
  have "\<exists>st'. toggleTodoCompleted example_platform (Finite 2) (scenario_state (js_str ''all''))
               = Inr st'"
    unfolding Let_def by blast
  then have r: "toggleTodoCompleted example_platform (Finite 2) (scenario_state (js_str ''all'')) =
       Inr (state_after
              (toggleTodoCompleted example_platform (Finite 2) (scenario_state (js_str ''all''))))"
    by (auto simp: state_after_def)
  from toggle_effect [of example_platform "Finite 2" full_state] full
  have f: "toggleTodoCompleted example_platform (Finite 2) full_state =
             Inl (QuotaExceededError,
                  full_state\<lparr>todos := todos (state_after
                     (toggleTodoCompleted example_platform (Finite 2) full_state))\<rparr>)"
    unfolding Let_def by blast
  from toggle_effect [of example_platform "Finite 9" "scenario_state (js_str ''all'')"] n
  have "todos (state_after (toggleTodoCompleted example_platform (Finite 9)
                 (scenario_state (js_str ''all'')))) = todos (scenario_state (js_str ''all''))"
    unfolding Let_def by blast
  with n r f [unfolded t2'] t2 t9 show ?thesis
    by simp
qed

section \<open>Loading and saving\<close>

lemma and_then_simps [simp]:
  "and_then (Inl e) f = Inl e"
  "and_then (Inr x) f = f x"
  by (simp_all add: and_then_def)

lemma coerceItem_SerializeTodo:
  "isFinite (todo_id t) \<Longrightarrow> coerceItem P (SerializeTodo t) = Inr t"
  by (cases "todo_id t") (simp_all add: coerceItem_def SerializeTodo_def SerializeNumber_def)

lemma map_items_map:
  "(\<And>x. x \<in> set xs \<Longrightarrow> f (h x) = Inr x) \<Longrightarrow> map_items f (map h xs) = Inr xs"
  by (induction xs) simp_all

lemma conforming_id_finite:
  "conforming_id P n \<Longrightarrow> isFinite n \<and> reads_back P n"
  by (cases n) (auto simp: conforming_id_def intro: safe_reads_back)

text \<open>
  Claim C3. For every collection of conforming items (the id a safe integer, as every
  id that \<open>addTodo\<close> creates, or a finite Number whose print reads back; the text a
  string; \<open>completed\<close> a boolean), loading the value produced by a save yields a
  collection equal to the original, entry by entry (id, text and \<open>completed\<close>) and in
  the same order, the id a Number, the text a string and \<open>completed\<close> a boolean. The
  value is the text \<open>JSON.stringify\<close> writes, as \<open>JSON.parse\<close> reads it
  (\<open>JSON_parse_stringify\<close>, \<open>JSON_parse_stored\<close>).
\<close>

theorem load_after_save:
  assumes "saveTodosToStorage P st = Inr saved"
    and "localStorage st' = localStorage saved"
    and "list_all (\<lambda>t. conforming_id P (todo_id t)) (todos st)"
  shows "loadTodosFromStorage P st' = Inr (st'\<lparr>todos := todos st\<rparr>)"
proof -
  from assms(3) have c: "isFinite (todo_id t) \<and> reads_back P (todo_id t)"
    if "t \<in> set (todos st)" for t
    using that by (auto simp: list_all_iff dest: conforming_id_finite)
  then have "stored P (JSON_stringify P (todos st)) = JSON_text (JArr (map SerializeTodo (todos st)))"
    by (simp add: stored_JSON_stringify)
  with save_Inr [OF assms(1)] assms(2)
  have s: "localStorage st' = Some (JSON_text (JArr (map SerializeTodo (todos st))))"
    by simp
  have "map_items (coerceItem P) (map SerializeTodo (todos st)) = Inr (todos st)"
    by (rule map_items_map) (simp add: c coerceItem_SerializeTodo)
  with s show ?thesis
    by (simp add: loadTodosFromStorage_def load_try_def)
qed

theorem load_after_save_witness:
  "saveTodosToStorage example_platform (scenario_state (js_str ''all'')) =
     Inr ((scenario_state (js_str ''all''))
            \<lparr>localStorage := Some (JSON_text (JArr (map SerializeTodo scenario_todos))),
              setItem_log := [JSON_text (JArr (map SerializeTodo scenario_todos))]\<rparr>)
   \<and> list_all (\<lambda>t. conforming_id example_platform (todo_id t))
        (todos (scenario_state (js_str ''all'')))
   \<and> loadTodosFromStorage example_platform
       (fresh_state (Some (JSON_text (JArr (map SerializeTodo scenario_todos))))) =
     Inr ((fresh_state (Some (JSON_text (JArr (map SerializeTodo scenario_todos)))))
            \<lparr>todos := scenario_todos\<rparr>)"
proof -
  have w: "length (JSON_stringify example_platform scenario_todos) = 114"
    by (simp add: written_text scenario_todos_def)
  have c: "list_all (\<lambda>t. conforming_id example_platform (todo_id t))
             (todos (scenario_state (js_str ''all'')))"
    by (simp add: scenario_state_def scenario_todos_def conforming_id_def)
  then have "reads_back example_platform (todo_id t)" if "t \<in> set scenario_todos" for t
    using that by (auto simp: list_all_iff scenario_state_def dest: conforming_id_finite)
  then have "stored example_platform (JSON_stringify example_platform scenario_todos) =
           JSON_text (JArr (map SerializeTodo scenario_todos))"
    by (simp add: stored_JSON_stringify)
  with w have s: "saveTodosToStorage example_platform (scenario_state (js_str ''all'')) =
     Inr ((scenario_state (js_str ''all''))
            \<lparr>localStorage := Some (JSON_text (JArr (map SerializeTodo scenario_todos))),
              setItem_log := [JSON_text (JArr (map SerializeTodo scenario_todos))]\<rparr>)"
    by (simp add: save_fits scenario_state_def)
  have l: "localStorage (fresh_state (Some (JSON_text (JArr (map SerializeTodo scenario_todos))))) =
           localStorage ((scenario_state (js_str ''all''))
            \<lparr>localStorage := Some (JSON_text (JArr (map SerializeTodo scenario_todos))),
              setItem_log := [JSON_text (JArr (map SerializeTodo scenario_todos))]\<rparr>)"
    by (simp add: fresh_state_def)
  have t: "todos (scenario_state (js_str ''all'')) = scenario_todos"
    by (simp add: scenario_state_def)
  from load_after_save [OF s l c] s c show ?thesis
    by (simp only: t simp_thms)
qed

text \<open>
  Claim C4. For every stored value that is absent, empty, not parseable, or that parses
  to a value other than an array, \<open>loadTodosFromStorage\<close> returns without raising and
  leaves the collection empty; a parse failure is logged. Nothing else changes.
\<close>

theorem load_resets:
  assumes "localStorage st = None \<or> localStorage st = Some Empty_string
         \<or> localStorage st = Some Not_JSON
         \<or> (\<exists>v. localStorage st = Some (JSON_text v) \<and> \<not> Array_isArray v)"
  shows "loadTodosFromStorage P st =
           Inr (st\<lparr>console_errors :=
                      console_errors st
                      @ (if localStorage st = Some Not_JSON then [SyntaxError] else []),
                    todos := []\<rparr>)"
  using assms by (auto simp: loadTodosFromStorage_def load_try_def)

theorem load_resets_witness:
  "loadTodosFromStorage example_platform (fresh_state None) = Inr (fresh_state None)
   \<and> loadTodosFromStorage example_platform (fresh_state (Some Empty_string)) =
       Inr (fresh_state (Some Empty_string))
   \<and> loadTodosFromStorage example_platform ((scenario_state (js_str ''all''))\<lparr>localStorage := Some Not_JSON\<rparr>) =
       Inr ((scenario_state (js_str ''all''))
              \<lparr>localStorage := Some Not_JSON, console_errors := [SyntaxError], todos := []\<rparr>)
   \<and> loadTodosFromStorage example_platform
        ((scenario_state (js_str ''all''))\<lparr>localStorage := Some (JSON_text (JObj []))\<rparr>) =
       Inr ((scenario_state (js_str ''all''))\<lparr>localStorage := Some (JSON_text (JObj [])), todos := []\<rparr>)"
  using load_resets [of "fresh_state None" example_platform]
    load_resets [of "fresh_state (Some Empty_string)" example_platform]
    load_resets [of "(scenario_state (js_str ''all''))\<lparr>localStorage := Some Not_JSON\<rparr>" example_platform]
    load_resets [of "(scenario_state (js_str ''all''))\<lparr>localStorage := Some (JSON_text (JObj []))\<rparr>" example_platform]
  by (simp add: fresh_state_def scenario_state_def)

lemma ToString_join_convertible:
  "(if convertible v then \<exists>s. ToString P v = Inr s else ToString P v = Inl TypeError)"
  "(if list_all convertible xs then \<exists>s. join P xs = Inr s else join P xs = Inl TypeError)"
proof (induction P v and P xs rule: ToString_join.induct)
  case (9 P x xs)
  then show ?case
    by (cases "x = Undefined \<or> x = JNull"; cases "xs = []"; cases "convertible x";
        cases "list_all convertible xs") auto
qed (auto split: option.splits)

lemma ToString_convertible:
  "convertible v \<Longrightarrow> \<exists>s. ToString P v = Inr s"
  "\<not> convertible v \<Longrightarrow> ToString P v = Inl TypeError"
  using ToString_join_convertible(1) [of v P] by (simp_all split: if_splits)

lemma ToNumber_convertible:
  "convertible v \<Longrightarrow> \<exists>n. ToNumber P v = Inr n"
  "\<not> convertible v \<Longrightarrow> ToNumber P v = Inl TypeError"
  using ToString_convertible [of v P] by (cases v; auto)+

lemma Get_property:
  "item \<noteq> JNull \<Longrightarrow> item \<noteq> Undefined \<Longrightarrow> Get item k = Inr (property item k)"
  by (cases item) simp_all

lemma coerceItem_loadable:
  assumes "loadable item"
  shows "\<exists>t. coerceItem P item = Inr t
           \<and> ToNumber P (property item (js_str ''id'')) = Inr (todo_id t)
           \<and> ToString P (property item (js_str ''text'')) = Inr (todo_text t)
           \<and> todo_completed t = ToBoolean (property item (js_str ''completed''))"
proof -
  from assms have n: "item \<noteq> JNull" "item \<noteq> Undefined"
    and i: "convertible (property item (js_str ''id''))"
    and t: "convertible (property item (js_str ''text''))"
    by (simp_all add: loadable_def)
  from ToNumber_convertible(1) [OF i] obtain a
    where a: "ToNumber P (property item (js_str ''id'')) = Inr a" by blast
  from ToString_convertible(1) [OF t] obtain s
    where s: "ToString P (property item (js_str ''text'')) = Inr s" by blast
  show ?thesis
    by (simp add: coerceItem_def Get_property [OF n] a s)
qed

lemma coerceItem_not_loadable:
  assumes "\<not> loadable item"
  shows "coerceItem P item = Inl TypeError"
proof (cases "item = JNull \<or> item = Undefined")
  case True
  then show ?thesis by (auto simp: coerceItem_def)
next
  case False
  then have n: "item \<noteq> JNull" "item \<noteq> Undefined" by simp_all
  show ?thesis
  proof (cases "convertible (property item (js_str ''id''))")
    case False
    then show ?thesis
      by (simp add: coerceItem_def Get_property [OF n] ToNumber_convertible(2))
  next
    case True
    with assms n have "\<not> convertible (property item (js_str ''text''))"
      by (simp add: loadable_def)
    moreover from ToNumber_convertible(1) [OF True] obtain a
      where "ToNumber P (property item (js_str ''id'')) = Inr a" by blast
    ultimately show ?thesis
      by (simp add: coerceItem_def Get_property [OF n] ToString_convertible(2))
  qed
qed

lemma map_items_loadable:
  "list_all loadable items \<Longrightarrow>
     \<exists>ts. map_items (coerceItem P) items = Inr ts \<and> list_all2 (coerced P) items ts"
proof (induction items)
  case Nil
  then show ?case by simp
next
  case (Cons item items)
  then obtain ts where ts: "map_items (coerceItem P) items = Inr ts"
    "list_all2 (coerced P) items ts" by auto
  from Cons.prems have "loadable item" by simp
  from coerceItem_loadable [OF this, of P] obtain t
    where "coerceItem P item = Inr t" "coerced P item t"
    by (auto simp: coerced_def)
  with ts show ?case by simp
qed

lemma map_items_not_loadable:
  "\<not> list_all loadable items \<Longrightarrow> map_items (coerceItem P) items = Inl TypeError"
proof (induction items)
  case Nil
  then show ?case by simp
next
  case (Cons item items)
  show ?case
  proof (cases "loadable item")
    case False
    then show ?thesis by (simp add: coerceItem_not_loadable)
  next
    case True
    with Cons have "map_items (coerceItem P) items = Inl TypeError" by simp
    moreover from coerceItem_loadable [OF True, of P] obtain t
      where "coerceItem P item = Inr t" by blast
    ultimately show ?thesis by simp
  qed
qed

text \<open>
  Against claim C10 as stated: the stored text \<open>[{"id":1,"text":"a","completed":false},null]\<close>
  parses to an array of two elements; reading \<open>id\<close> of \<open>null\<close> throws, the \<open>catch\<close>
  clause empties the collection, and no element is loaded.
\<close>

theorem load_array_counterexample:
  "Array_isArray (JArr items_with_null)
   \<and> length items_with_null = 2
   \<and> loadTodosFromStorage example_platform (fresh_state (Some (JSON_text (JArr items_with_null)))) =
       Inr ((fresh_state (Some (JSON_text (JArr items_with_null))))
              \<lparr>console_errors := [TypeError], todos := []\<rparr>)"
  by (simp add: items_with_null_def loadTodosFromStorage_def load_try_def coerceItem_def
        fresh_state_def)

text \<open>
  Claim C10, amended. For every stored value that parses to an array in which every
  element is convertible (neither \<open>null\<close> nor an element whose \<open>id\<close> or \<open>text\<close>
  contains an object with an own property \<open>toString\<close>), \<open>loadTodosFromStorage\<close> returns
  a collection of the same length, each entry holding the conversions of the element's
  fields (\<open>id\<close> by \<open>Number\<close>, \<open>text\<close> by \<open>String\<close>, \<open>completed\<close> by \<open>Boolean\<close>), none
  rejected or skipped; a missing \<open>text\<close> gives the text \<open>undefined\<close> and an empty
  \<open>text\<close> the empty text. When some element is not convertible, the conversion throws
  a TypeError, which is logged, and the collection is left empty.
\<close>

theorem load_array:
  assumes "localStorage st = Some (JSON_text (JArr items))"
  shows "(list_all loadable items \<longrightarrow>
            (\<exists>ts. loadTodosFromStorage P st = Inr (st\<lparr>todos := ts\<rparr>)
                  \<and> length ts = length items
                  \<and> list_all2 (\<lambda>item t. coerced P item t
                        \<and> (property item (js_str ''text'') = Undefined \<longrightarrow>
                             todo_text t = js_str ''undefined'')
                        \<and> (property item (js_str ''text'') = JStr [] \<longrightarrow> todo_text t = []))
                      items ts))
       \<and> (\<not> list_all loadable items \<longrightarrow>
            loadTodosFromStorage P st =
              Inr (st\<lparr>console_errors := console_errors st @ [TypeError], todos := []\<rparr>))"
proof (intro conjI impI)
  assume "list_all loadable items"
  from map_items_loadable [OF this, of P] obtain ts
    where ts: "map_items (coerceItem P) items = Inr ts" "list_all2 (coerced P) items ts"
    by blast
  from ts(2) have len: "length ts = length items"
    by (simp add: list_all2_lengthD)
  from ts(1) assms have l: "loadTodosFromStorage P st = Inr (st\<lparr>todos := ts\<rparr>)"
    by (simp add: loadTodosFromStorage_def load_try_def)
  have "list_all2 (\<lambda>item t. coerced P item t
            \<and> (property item (js_str ''text'') = Undefined \<longrightarrow> todo_text t = js_str ''undefined'')
            \<and> (property item (js_str ''text'') = JStr [] \<longrightarrow> todo_text t = []))
          items ts"
    by (rule list_all2_mono [OF ts(2)]) (auto simp: coerced_def)
  with l len
  show "\<exists>ts. loadTodosFromStorage P st = Inr (st\<lparr>todos := ts\<rparr>)
             \<and> length ts = length items
             \<and> list_all2 (\<lambda>item t. coerced P item t
                   \<and> (property item (js_str ''text'') = Undefined \<longrightarrow>
                        todo_text t = js_str ''undefined'')
                   \<and> (property item (js_str ''text'') = JStr [] \<longrightarrow> todo_text t = []))
                 items ts"
    by blast
next
  assume "\<not> list_all loadable items"
  from map_items_not_loadable [OF this, of P] assms
  show "loadTodosFromStorage P st =
          Inr (st\<lparr>console_errors := console_errors st @ [TypeError], todos := []\<rparr>)"
    by (simp add: loadTodosFromStorage_def load_try_def)
qed

theorem load_array_witness:
  "list_all loadable partial_items
   \<and> loadTodosFromStorage example_platform (fresh_state (Some (JSON_text (JArr partial_items)))) =
       Inr ((fresh_state (Some (JSON_text (JArr partial_items))))
              \<lparr>todos := [\<lparr>todo_id = Finite 1, todo_text = js_str ''undefined'',
                            todo_completed = True\<rparr>,
                          \<lparr>todo_id = Finite 2, todo_text = [], todo_completed = False\<rparr>]\<rparr>)
   \<and> \<not> list_all loadable [JObj [(js_str ''text'', JObj [(js_str ''toString'', JNull)])]]
   \<and> loadTodosFromStorage example_platform
        (fresh_state (Some (JSON_text (JArr [JObj [(js_str ''text'', JObj [(js_str ''toString'', JNull)])]])))) =
       Inr ((fresh_state (Some (JSON_text (JArr [JObj [(js_str ''text'', JObj [(js_str ''toString'', JNull)])]]))))
              \<lparr>console_errors := [TypeError], todos := []\<rparr>)"
proof -
  have h1: "localStorage (fresh_state (Some (JSON_text (JArr partial_items)))) =
            Some (JSON_text (JArr partial_items))"
    by (simp add: fresh_state_def)
  have l1: "list_all loadable partial_items"
    by (simp add: partial_items_def loadable_def)
  have h2: "localStorage (fresh_state (Some (JSON_text (JArr [JObj [(js_str ''text'', JObj [(js_str ''toString'', JNull)])]])))) =
            Some (JSON_text (JArr [JObj [(js_str ''text'', JObj [(js_str ''toString'', JNull)])]]))"
    by (simp add: fresh_state_def)
  have l2: "\<not> list_all loadable [JObj [(js_str ''text'', JObj [(js_str ''toString'', JNull)])]]"
    by (simp add: loadable_def)
  have r1: "loadTodosFromStorage example_platform (fresh_state (Some (JSON_text (JArr partial_items)))) =
       Inr ((fresh_state (Some (JSON_text (JArr partial_items))))
              \<lparr>todos := [\<lparr>todo_id = Finite 1, todo_text = js_str ''undefined'',
                            todo_completed = True\<rparr>,
                          \<lparr>todo_id = Finite 2, todo_text = [], todo_completed = False\<rparr>]\<rparr>)"
    using load_array [OF h1, of example_platform] l1
    by (simp add: partial_items_def loadTodosFromStorage_def load_try_def coerceItem_def
        fresh_state_def)
  from load_array [OF h2, of example_platform] l2 l1 r1
  show ?thesis
    by (simp add: fresh_state_def)
qed

end
